theory Spec2Isabelle
  imports Main
begin

section \<open>Strings and characters of the source language\<close>

text \<open>
  The program is a Node.js script (\<^verbatim>\<open>generate_der.js\<close>).  Its strings are modelled
  as values of \<^typ>\<open>string\<close>, one \<^typ>\<open>char\<close> per character.  The model is that of
  ASCII text: the character classes below are the ASCII ones, which is all that the
  regular expressions and literals of the script name.  A character from 128 on is an
  ordinary character here, not white space, not alphanumeric and without case, whereas
  JavaScript counts some characters outside ASCII as white space and maps some with
  \<^verbatim>\<open>toUpperCase\<close>.
\<close>

definition code :: "char \<Rightarrow> nat" where
  "code c = of_char c"

text \<open>White space as \<^verbatim>\<open>\s\<close> and \<^verbatim>\<open>String.prototype.trim\<close> see it (ASCII part):
  tab, line feed, vertical tab, form feed, carriage return, space.\<close>

definition isSpace :: "char \<Rightarrow> bool" where
  "isSpace c = (code c = 9 \<or> code c = 10 \<or> code c = 11 \<or> code c = 12 \<or> code c = 13 \<or> code c = 32)"

definition isUpper :: "char \<Rightarrow> bool" where
  "isUpper c = (65 \<le> code c \<and> code c \<le> 90)"

definition isLower :: "char \<Rightarrow> bool" where
  "isLower c = (97 \<le> code c \<and> code c \<le> 122)"

definition isDigit :: "char \<Rightarrow> bool" where
  "isDigit c = (48 \<le> code c \<and> code c \<le> 57)"

text \<open>The class \<^verbatim>\<open>[a-zA-Z0-9_]\<close>.\<close>

definition isWordChar :: "char \<Rightarrow> bool" where
  "isWordChar c = (isLower c \<or> isUpper c \<or> isDigit c \<or> c = CHR ''_'')"

definition toUpperChar :: "char \<Rightarrow> char" where
  "toUpperChar c = (if isLower c then char_of (code c - 32) else c)"

definition toUpperCase :: "string \<Rightarrow> string" where
  "toUpperCase s = map toUpperChar s"

text \<open>The classes on the bits of a character (the first bit is the lowest); these
  equations evaluate the classes on concrete text.\<close>

lemma isLower_Char:
  "isLower (Char b0 b1 b2 b3 b4 b5 b6 b7) =
     (\<not> b7 \<and> b6 \<and> b5 \<and> (b0 \<or> b1 \<or> b2 \<or> b3 \<or> b4) \<and> \<not> (b4 \<and> b3 \<and> (b2 \<or> (b1 \<and> b0))))"
  by (cases b0; cases b1; cases b2; cases b3; cases b4; cases b5; cases b6; cases b7;
      simp add: isLower_def code_def)

lemma isUpper_Char:
  "isUpper (Char b0 b1 b2 b3 b4 b5 b6 b7) =
     (\<not> b7 \<and> b6 \<and> \<not> b5 \<and> (b0 \<or> b1 \<or> b2 \<or> b3 \<or> b4) \<and> \<not> (b4 \<and> b3 \<and> (b2 \<or> (b1 \<and> b0))))"
  by (cases b0; cases b1; cases b2; cases b3; cases b4; cases b5; cases b6; cases b7;
      simp add: isUpper_def code_def)

lemma isDigit_Char:
  "isDigit (Char b0 b1 b2 b3 b4 b5 b6 b7) =
     (\<not> b7 \<and> \<not> b6 \<and> b5 \<and> b4 \<and> (\<not> b3 \<or> (\<not> b2 \<and> \<not> b1)))"
  by (cases b0; cases b1; cases b2; cases b3; cases b4; cases b5; cases b6; cases b7;
      simp add: isDigit_def code_def)

lemma isSpace_Char:
  "isSpace (Char b0 b1 b2 b3 b4 b5 b6 b7) =
     (\<not> b7 \<and> \<not> b6 \<and>
      ((\<not> b5 \<and> \<not> b4 \<and> b3 \<and> ((\<not> b2 \<and> (b0 \<or> b1)) \<or> (b2 \<and> \<not> b1))) \<or>
       (b5 \<and> \<not> b4 \<and> \<not> b3 \<and> \<not> b2 \<and> \<not> b1 \<and> \<not> b0)))"
  by (cases b0; cases b1; cases b2; cases b3; cases b4; cases b5; cases b6; cases b7;
      simp add: isSpace_def code_def)

lemma toUpperChar_Char:
  "toUpperChar (Char b0 b1 b2 b3 b4 b5 b6 b7) =
     (if isLower (Char b0 b1 b2 b3 b4 b5 b6 b7) then Char b0 b1 b2 b3 b4 False b6 b7
      else Char b0 b1 b2 b3 b4 b5 b6 b7)"
  by (cases b0; cases b1; cases b2; cases b3; cases b4; cases b5; cases b6; cases b7;
      simp add: toUpperChar_def isLower_def code_def char_of_eq_iff take_bit_eq_mod)

text \<open>\<^verbatim>\<open>s.trim()\<close>: white space removed at both ends.\<close>

definition trimStart :: "string \<Rightarrow> string" where
  "trimStart s = dropWhile isSpace s"

definition trim :: "string \<Rightarrow> string" where
  "trim s = rev (dropWhile isSpace (rev (trimStart s)))"

section \<open>The name normaliser\<close>

text \<open>
  \<^verbatim>\<open>
  function cleanName(name) {
    return name.replace(/["`\[\]]/g, '')
               .replace(/\./g, '_')
               .replace(/#/g, '_NUM')
               .replace(/[^a-zA-Z0-9_]/g, '_')
               .trim();
  }
  \<close>
  Each \<^verbatim>\<open>replace\<close> has the \<^verbatim>\<open>g\<close> flag and a pattern of one character, so it
  rewrites every character on its own, left to right.
\<close>

definition isQuoting :: "char \<Rightarrow> bool" where
  "isQuoting c = (c = CHR 0x22 \<or> c = CHR 0x60 \<or> c = CHR ''['' \<or> c = CHR '']'')"

definition stripQuoting :: "string \<Rightarrow> string" where
  "stripQuoting s = filter (\<lambda>c. \<not> isQuoting c) s"

definition replaceDots :: "string \<Rightarrow> string" where
  "replaceDots s = map (\<lambda>c. if c = CHR ''.'' then CHR ''_'' else c) s"

definition replaceHash :: "string \<Rightarrow> string" where
  "replaceHash s = concat (map (\<lambda>c. if c = CHR ''#'' then ''_NUM'' else [c]) s)"

definition replaceOther :: "string \<Rightarrow> string" where
  "replaceOther s = map (\<lambda>c. if isWordChar c then c else CHR ''_'') s"

definition cleanName :: "string \<Rightarrow> string" where
  "cleanName name = trim (replaceOther (replaceHash (replaceDots (stripQuoting name))))"


section \<open>The type classifier\<close>

text \<open>\<^verbatim>\<open>str.includes(sub)\<close>: \<open>sub\<close> occurs in \<open>str\<close> as a contiguous substring.\<close>

fun startsWith :: "string \<Rightarrow> string \<Rightarrow> bool" where
  "startsWith s [] = True"
| "startsWith [] (p # ps) = False"
| "startsWith (c # cs) (p # ps) = (c = p \<and> startsWith cs ps)"

fun includesStr :: "string \<Rightarrow> string \<Rightarrow> bool" where
  "includesStr [] sub = startsWith [] sub"
| "includesStr (c # cs) sub = (startsWith (c # cs) sub \<or> includesStr cs sub)"

definition simplifyDataType :: "string \<Rightarrow> string" where
  "simplifyDataType dataType =
     (let type = toUpperCase dataType in
      if includesStr type ''VARCHAR'' \<or> includesStr type ''CHAR'' then ''STRING''
      else if includesStr type ''NUMBER'' \<or> includesStr type ''INTEGER'' \<or> includesStr type ''DECIMAL''
        then ''NUMBER''
      else if includesStr type ''DATE'' \<or> includesStr type ''TIMESTAMP'' then ''DATE''
      else if includesStr type ''CLOB'' \<or> includesStr type ''BLOB'' then ''LOB''
      else ''OTHER'')"

section \<open>Regular expressions\<close>

text \<open>
  The script finds its statements and members with JavaScript regular expressions.  They
  are modelled by a syntax tree and a backtracking matcher that tries the alternatives in
  the order of the ECMAScript semantics: a greedy quantifier first takes one more
  character, a lazy one first tries what follows, an optional group is first entered.
  The expressions of the script only repeat single-character classes, so \<open>Rep\<close> carries
  a class:
  \<^item> \<open>Lit p\<close>: one character of class \<open>p\<close>;
  \<^item> \<open>Rep greedy n p\<close>: at least \<open>n\<close> characters of class \<open>p\<close>
    (\<^verbatim>\<open>p*\<close> is \<open>Rep True 0 p\<close>, \<^verbatim>\<open>p+\<close> is \<open>Rep True 1 p\<close>, \<^verbatim>\<open>p*?\<close> is \<open>Rep False 0 p\<close>);
  \<^item> \<open>Grp i ns\<close>: the capturing group number \<open>i\<close>;
  \<^item> \<open>Opt ns\<close>: the optional non-capturing group \<^verbatim>\<open>(?:...)?\<close>.
  The matcher works on a stack of frames, the nodes still to be matched; \<open>Close i s0\<close>
  ends group \<open>i\<close>, which was entered when the remaining input was \<open>s0\<close>.
\<close>

datatype rx =
    Lit "char \<Rightarrow> bool"
  | Rep bool nat "char \<Rightarrow> bool"
  | Grp nat "rx list"
  | Opt "rx list"

datatype frame = Node rx | Close nat string

type_synonym caps = "(nat \<times> string) list"

fun rxWeight :: "rx \<Rightarrow> nat" where
  "rxWeight (Lit p) = 1"
| "rxWeight (Rep g n p) = 1"
| "rxWeight (Grp i ns) = 2 + sum_list (map rxWeight ns)"
| "rxWeight (Opt ns) = 1 + sum_list (map rxWeight ns)"

fun frameWeight :: "frame \<Rightarrow> nat" where
  "frameWeight (Node r) = rxWeight r"
| "frameWeight (Close i s) = 1"

text \<open>\<open>run k s caps\<close> matches the frames \<open>k\<close> at the start of \<open>s\<close>; it returns the
  captures and the input left after the match, or \<open>None\<close> when every alternative fails.\<close>

function (sequential) run :: "frame list \<Rightarrow> string \<Rightarrow> caps \<Rightarrow> (caps \<times> string) option" where
  "run [] s caps = Some (caps, s)"
| "run (Node (Lit p) # k) [] caps = None"
| "run (Node (Lit p) # k) (c # cs) caps = (if p c then run k cs caps else None)"
| "run (Node (Rep g (Suc n) p) # k) [] caps = None"
| "run (Node (Rep g (Suc n) p) # k) (c # cs) caps =
     (if p c then run (Node (Rep g n p) # k) cs caps else None)"
| "run (Node (Rep g 0 p) # k) [] caps = run k [] caps"
| "run (Node (Rep True 0 p) # k) (c # cs) caps =
     (if p c then
        (case run (Node (Rep True 0 p) # k) cs caps of
           Some r \<Rightarrow> Some r
         | None \<Rightarrow> run k (c # cs) caps)
      else run k (c # cs) caps)"
| "run (Node (Rep False 0 p) # k) (c # cs) caps =
     (case run k (c # cs) caps of
        Some r \<Rightarrow> Some r
      | None \<Rightarrow> (if p c then run (Node (Rep False 0 p) # k) cs caps else None))"
| "run (Node (Grp i ns) # k) s caps = run (map Node ns @ Close i s # k) s caps"
| "run (Close i s0 # k) s caps = run k s ((i, take (length s0 - length s) s0) # caps)"
| "run (Node (Opt ns) # k) s caps =
     (case run (map Node ns @ k) s caps of
        Some r \<Rightarrow> Some r
      | None \<Rightarrow> run k s caps)"
  by pat_completeness auto
termination
  by (relation "measures [\<lambda>(k, s, caps). length s, \<lambda>(k, s, caps). sum_list (map frameWeight k)]")
     (auto simp: comp_def)

text \<open>A pattern that begins with \<^verbatim>\<open>^\<close> (and has no \<^verbatim>\<open>m\<close> flag) matches at the start
  of the string only.\<close>

definition matchStart :: "rx list \<Rightarrow> string \<Rightarrow> (caps \<times> string) option" where
  "matchStart re s = run (map Node re) s []"

text \<open>Otherwise the leftmost start position that has a match wins.  This is
  \<^verbatim>\<open>str.match(re)\<close> for a pattern without the \<^verbatim>\<open>g\<close> flag, and one call of
  \<^verbatim>\<open>re.exec(str)\<close> for a pattern with it, where the input left after the match is
  where \<^verbatim>\<open>lastIndex\<close> makes the next call start.\<close>

fun search :: "rx list \<Rightarrow> string \<Rightarrow> (caps \<times> string) option" where
  "search re [] = matchStart re []"
| "search re (c # cs) =
     (case matchStart re (c # cs) of
        Some r \<Rightarrow> Some r
      | None \<Rightarrow> search re cs)"

text \<open>\<^verbatim>\<open>match[i]\<close>; every group read by the script takes part in every match of its
  pattern, so the default is never reached.\<close>

definition group :: "caps \<Rightarrow> nat \<Rightarrow> string" where
  "group caps i = (case map_of caps i of Some s \<Rightarrow> s | None \<Rightarrow> [])"

text \<open>A literal character under the \<^verbatim>\<open>i\<close> flag, and without it.\<close>

definition ci :: "char \<Rightarrow> rx" where
  "ci x = Lit (\<lambda>c. toUpperChar c = toUpperChar x)"

definition lits :: "string \<Rightarrow> rx list" where
  "lits s = map ci s"

definition chr :: "char \<Rightarrow> rx" where
  "chr x = Lit (\<lambda>c. c = x)"

definition anyChar :: "char \<Rightarrow> bool" where
  "anyChar c = True"

definition notSpace :: "char \<Rightarrow> bool" where
  "notSpace c = (\<not> isSpace c)"

definition notSpaceParen :: "char \<Rightarrow> bool" where
  "notSpaceParen c = (\<not> isSpace c \<and> c \<noteq> CHR ''('')"

definition notSemicolon :: "char \<Rightarrow> bool" where
  "notSemicolon c = (c \<noteq> CHR '';'')"

definition notClose :: "char \<Rightarrow> bool" where
  "notClose c = (c \<noteq> CHR '')'')"

definition notSpaceCommaParen :: "char \<Rightarrow> bool" where
  "notSpaceCommaParen c = (\<not> isSpace c \<and> c \<noteq> CHR '','' \<and> c \<noteq> CHR ''('')"

text \<open>\<^verbatim>\<open>/CREATE\s+TABLE\s+([^\s(]+)\s*\(([\s\S]*?)\)(?:\s*[^;]*)?;/gi\<close>\<close>

definition createTableRegex :: "rx list" where
  "createTableRegex =
     lits ''CREATE'' @ [Rep True 1 isSpace] @ lits ''TABLE'' @
     [Rep True 1 isSpace,
      Grp 1 [Rep True 1 notSpaceParen],
      Rep True 0 isSpace,
      chr CHR ''('',
      Grp 2 [Rep False 0 anyChar],
      chr CHR '')'',
      Opt [Rep True 0 isSpace, Rep True 0 notSemicolon],
      chr CHR '';'']"

text \<open>\<^verbatim>\<open>/PRIMARY\s+KEY\s*\(([^)]+)\)/i\<close>\<close>

definition pkRegex :: "rx list" where
  "pkRegex =
     lits ''PRIMARY'' @ [Rep True 1 isSpace] @ lits ''KEY'' @
     [Rep True 0 isSpace,
      chr CHR ''('',
      Grp 1 [Rep True 1 notClose],
      chr CHR '')'']"

text \<open>\<^verbatim>\<open>/FOREIGN\s+KEY\s*\(([^)]+)\)\s+REFERENCES\s+([^\s(]+)\s*\(([^)]+)\)/i\<close>\<close>

definition fkRegex :: "rx list" where
  "fkRegex =
     lits ''FOREIGN'' @ [Rep True 1 isSpace] @ lits ''KEY'' @
     [Rep True 0 isSpace,
      chr CHR ''('',
      Grp 1 [Rep True 1 notClose],
      chr CHR '')'',
      Rep True 1 isSpace] @
     lits ''REFERENCES'' @
     [Rep True 1 isSpace,
      Grp 2 [Rep True 1 notSpaceParen],
      Rep True 0 isSpace,
      chr CHR ''('',
      Grp 3 [Rep True 1 notClose],
      chr CHR '')'']"

text \<open>\<^verbatim>\<open>/^\s*([^\s]+)\s+([^\s,\(]+)(?:\([^)]*\))?/\<close>, used with \<open>matchStart\<close>.\<close>

definition columnRegex :: "rx list" where
  "columnRegex =
     [Rep True 0 isSpace,
      Grp 1 [Rep True 1 notSpace],
      Rep True 1 isSpace,
      Grp 2 [Rep True 1 notSpaceCommaParen],
      Opt [chr CHR ''('', Rep True 0 notClose, chr CHR '')'']]"

text \<open>\<^verbatim>\<open>/ALTER\s+TABLE\s+([^\s]+)\s+ADD\s+CONSTRAINT[^;]*FOREIGN\s+KEY\s*\(([^)]+)\)\s+REFERENCES\s+([^\s(]+)\s*\(([^)]+)\)/gi\<close>\<close>

definition alterConstraintRegex :: "rx list" where
  "alterConstraintRegex =
     lits ''ALTER'' @ [Rep True 1 isSpace] @ lits ''TABLE'' @
     [Rep True 1 isSpace,
      Grp 1 [Rep True 1 notSpace],
      Rep True 1 isSpace] @
     lits ''ADD'' @ [Rep True 1 isSpace] @ lits ''CONSTRAINT'' @
     [Rep True 0 notSemicolon] @
     lits ''FOREIGN'' @ [Rep True 1 isSpace] @ lits ''KEY'' @
     [Rep True 0 isSpace,
      chr CHR ''('',
      Grp 2 [Rep True 1 notClose],
      chr CHR '')'',
      Rep True 1 isSpace] @
     lits ''REFERENCES'' @
     [Rep True 1 isSpace,
      Grp 3 [Rep True 1 notSpaceParen],
      Rep True 0 isSpace,
      chr CHR ''('',
      Grp 4 [Rep True 1 notClose],
      chr CHR '')'']"


section \<open>The data model\<close>

text \<open>
  The objects the script builds.  A column is \<^verbatim>\<open>{ name, type, isPrimaryKey, isNotNull }\<close>,
  a constraint \<^verbatim>\<open>{ type: 'PK', columns }\<close>, a table \<^verbatim>\<open>{ columns, constraints }\<close>, a
  relationship \<^verbatim>\<open>{ from, to, fromColumns, toColumns }\<close>.  The fields \<^verbatim>\<open>name\<close>,
  \<^verbatim>\<open>type\<close>, \<^verbatim>\<open>from\<close> and \<^verbatim>\<open>to\<close> carry a prefix here.
\<close>

record column =
  col_name :: string
  col_type :: string
  isPrimaryKey :: bool
  isNotNull :: bool

record tconstraint =
  con_type :: string
  con_columns :: "string list"

record table =
  columns :: "column list"
  constraints :: "tconstraint list"

record relationship =
  rel_from :: string
  rel_to :: string
  fromColumns :: "string list"
  toColumns :: "string list"

text \<open>
  \<^verbatim>\<open>tables\<close> is a JavaScript \<^verbatim>\<open>Map\<close>: it iterates in insertion order, and
  \<^verbatim>\<open>tables.set(k, v)\<close> on a key already present replaces the value and keeps the key's
  place.  The model is an association list with this update.
\<close>

type_synonym table_map = "(string \<times> table) list"

fun mapSet :: "string \<Rightarrow> table \<Rightarrow> table_map \<Rightarrow> table_map" where
  "mapSet k v [] = [(k, v)]"
| "mapSet k v ((k', v') # m) = (if k' = k then (k, v) # m else (k', v') # mapSet k v m)"

definition mapHas :: "table_map \<Rightarrow> string \<Rightarrow> bool" where
  "mapHas m k = (k \<in> set (map fst m))"

record schema =
  tables :: table_map
  relationships :: "relationship list"

section \<open>The column/constraint splitter\<close>

text \<open>
  \<^verbatim>\<open>
  const lines = [];
  let currentLine = '';
  let parenthesesCount = 0;
  for (let i = 0; i < tableDefinition.length; i++) {
    const char = tableDefinition[i];
    currentLine += char;
    if (char === '(') parenthesesCount++;
    if (char === ')') parenthesesCount--;
    if (char === ',' && parenthesesCount === 0) {
      lines.push(currentLine.slice(0, -1).trim());
      currentLine = '';
    }
  }
  if (currentLine.trim()) {
    lines.push(currentLine.trim());
  }
  \<close>
  The state of the loop is \<open>(lines, currentLine, parenthesesCount)\<close>; the count is a
  JavaScript number and may go below zero.
\<close>

type_synonym split_state = "string list \<times> string \<times> int"

definition splitStep :: "split_state \<Rightarrow> char \<Rightarrow> split_state" where
  "splitStep st char =
     (case st of (lines, currentLine, parenthesesCount) \<Rightarrow>
        let currentLine = currentLine @ [char];
            parenthesesCount = (if char = CHR ''('' then parenthesesCount + 1 else parenthesesCount);
            parenthesesCount = (if char = CHR '')'' then parenthesesCount - 1 else parenthesesCount)
        in if char = CHR '','' \<and> parenthesesCount = 0
           then (lines @ [trim (butlast currentLine)], [], parenthesesCount)
           else (lines, currentLine, parenthesesCount))"

definition splitDefinition :: "string \<Rightarrow> string list" where
  "splitDefinition tableDefinition =
     (case foldl splitStep ([], [], 0) tableDefinition of (lines, currentLine, parenthesesCount) \<Rightarrow>
        if trim currentLine \<noteq> [] then lines @ [trim currentLine] else lines)"

section \<open>Members of a table body\<close>

text \<open>\<^verbatim>\<open>str.split(',')\<close>: the pieces between the commas; the empty string gives one
  empty piece.\<close>

fun splitComma :: "string \<Rightarrow> string list" where
  "splitComma [] = [[]]"
| "splitComma (c # cs) =
     (if c = CHR '','' then [] # splitComma cs
      else (case splitComma cs of [] \<Rightarrow> [[c]] | p # ps \<Rightarrow> (c # p) # ps))"

text \<open>\<^verbatim>\<open>list.split(',').map(col => cleanName(col.trim()))\<close>\<close>

definition cleanColumns :: "string \<Rightarrow> string list" where
  "cleanColumns list = map (\<lambda>col. cleanName (trim col)) (splitComma list)"

text \<open>\<^verbatim>\<open>columnName.match(/^\d+\)$/)\<close>: one or more digits, then a closing parenthesis,
  and nothing else.\<close>

definition digitsThenParen :: "string \<Rightarrow> bool" where
  "digitsThenParen s =
     (s \<noteq> [] \<and> last s = CHR '')'' \<and> butlast s \<noteq> [] \<and> list_all isDigit (butlast s))"

text \<open>
  The column branch of the member loop:
  \<^verbatim>\<open>
  const columnMatch = line.match(/^\s*([^\s]+)\s+([^\s,\(]+)(?:\([^)]*\))?/);
  if (columnMatch) {
    let columnName = cleanName(columnMatch[1]);
    if (columnName.toUpperCase() === 'PARTITION' || columnName.includes(')') ||
        columnName.match(/^\d+\)$/) || columnName.toUpperCase() === 'PRIMARY' ||
        columnName.toUpperCase() === 'KEY' || columnName.length === 0) {
      continue;
    }
    const dataType = simplifyDataType(columnMatch[2]);
    const isPrimaryKey = line.toUpperCase().includes('PRIMARY KEY');
    const isNotNull = line.toUpperCase().includes('NOT NULL') && !isPrimaryKey;
    columns.push({ name: columnName, type: dataType, isPrimaryKey, isNotNull });
  }
  \<close>
  \<open>parseColumn line\<close> is the column that is pushed, or \<open>None\<close> when the pattern does not
  match or the name is filtered out.
\<close>

definition parseColumn :: "string \<Rightarrow> column option" where
  "parseColumn line =
     (case matchStart columnRegex line of
        None \<Rightarrow> None
      | Some (columnMatch, rest) \<Rightarrow>
          let columnName = cleanName (group columnMatch 1) in
          if toUpperCase columnName = ''PARTITION'' \<or>
             includesStr columnName '')'' \<or>
             digitsThenParen columnName \<or>
             toUpperCase columnName = ''PRIMARY'' \<or>
             toUpperCase columnName = ''KEY'' \<or>
             length columnName = 0
          then None
          else
            let dataType = simplifyDataType (group columnMatch 2);
                isPK = includesStr (toUpperCase line) ''PRIMARY KEY'';
                isNN = (includesStr (toUpperCase line) ''NOT NULL'' \<and> \<not> isPK)
            in Some \<lparr>col_name = columnName, col_type = dataType,
                       isPrimaryKey = isPK, isNotNull = isNN\<rparr>)"

text \<open>
  One round of \<^verbatim>\<open>for (let line of lines)\<close>.  The state is the \<^verbatim>\<open>columns\<close> and
  \<^verbatim>\<open>constraints\<close> of the table being read and the global \<^verbatim>\<open>relationships\<close>.
  \<^verbatim>\<open>
  line = line.trim();
  if (!line || line.match(/^\s*$/)) continue;
  if (line.toUpperCase().includes('CONSTRAINT')) {
    if (line.toUpperCase().includes('PRIMARY KEY')) {
      const pkMatch = line.match(/PRIMARY\s+KEY\s*\(([^)]+)\)/i);
      if (pkMatch) {
        const pkColumns = pkMatch[1].split(',').map(col => cleanName(col.trim()));
        constraints.push({ type: 'PK', columns: pkColumns });
      }
    } else if (line.toUpperCase().includes('FOREIGN KEY')) {
      const fkMatch = line.match(/FOREIGN\s+KEY\s*\(([^)]+)\)\s+REFERENCES\s+([^\s(]+)\s*\(([^)]+)\)/i);
      if (fkMatch) {
        const fkColumns = fkMatch[1].split(',').map(col => cleanName(col.trim()));
        const refTable = cleanName(fkMatch[2]);
        const refColumns = fkMatch[3].split(',').map(col => cleanName(col.trim()));
        relationships.push({ from: tableName, to: refTable,
                             fromColumns: fkColumns, toColumns: refColumns });
      }
    }
  } else { ... the column branch ... }
  \<close>
\<close>

type_synonym member_state = "column list \<times> tconstraint list \<times> relationship list"

definition isBlank :: "string \<Rightarrow> bool" where
  "isBlank line = (line = [] \<or> list_all isSpace line)"

definition isConstraintMember :: "string \<Rightarrow> bool" where
  "isConstraintMember line = includesStr (toUpperCase line) ''CONSTRAINT''"

definition processConstraint :: "string \<Rightarrow> member_state \<Rightarrow> string \<Rightarrow> member_state" where
  "processConstraint tableName st line =
     (case st of (cols, cons, rels) \<Rightarrow>
        if includesStr (toUpperCase line) ''PRIMARY KEY'' then
          (case search pkRegex line of
             None \<Rightarrow> st
           | Some (pkMatch, rest) \<Rightarrow>
               let pkColumns = cleanColumns (group pkMatch 1)
               in (cols, cons @ [\<lparr>con_type = ''PK'', con_columns = pkColumns\<rparr>], rels))
        else if includesStr (toUpperCase line) ''FOREIGN KEY'' then
          (case search fkRegex line of
             None \<Rightarrow> st
           | Some (fkMatch, rest) \<Rightarrow>
               let fkColumns = cleanColumns (group fkMatch 1);
                   refTable = cleanName (group fkMatch 2);
                   refColumns = cleanColumns (group fkMatch 3)
               in (cols, cons,
                   rels @ [\<lparr>rel_from = tableName, rel_to = refTable,
                            fromColumns = fkColumns, toColumns = refColumns\<rparr>]))
        else st)"

definition processLine :: "string \<Rightarrow> member_state \<Rightarrow> string \<Rightarrow> member_state" where
  "processLine tableName st line0 =
     (let line = trim line0 in
      if isBlank line then st
      else if isConstraintMember line then processConstraint tableName st line
      else (case parseColumn line of
              None \<Rightarrow> st
            | Some column \<Rightarrow>
                (case st of (cols, cons, rels) \<Rightarrow> (cols @ [column], cons, rels))))"

text \<open>The body of the \<^verbatim>\<open>while\<close> loop over the \<^verbatim>\<open>CREATE TABLE\<close> matches, for one match
  with name token \<open>m1\<close> and body \<open>m2\<close>: the members are read, and the table is stored
  only when it has a column.
  \<^verbatim>\<open>
  if (columns.length > 0) {
    tables.set(tableName, { columns, constraints });
  }
  \<close>\<close>

definition parseBody :: "string \<Rightarrow> string \<Rightarrow> relationship list \<Rightarrow> member_state" where
  "parseBody tableName tableDefinition rels =
     foldl (processLine tableName) ([], [], rels) (splitDefinition tableDefinition)"

definition processCreateTable :: "schema \<Rightarrow> string \<Rightarrow> string \<Rightarrow> schema" where
  "processCreateTable st m1 m2 =
     (let tableName = cleanName m1;
          tableDefinition = m2
      in case parseBody tableName tableDefinition (relationships st) of
           (cols, cons, rels) \<Rightarrow>
             if length cols > 0
             then \<lparr>tables = mapSet tableName \<lparr>columns = cols, constraints = cons\<rparr> (tables st),
                   relationships = rels\<rparr>
             else \<lparr>tables = tables st, relationships = rels\<rparr>)"


section \<open>The schema builder\<close>

text \<open>A match leaves no more input than it was given, and a pattern that begins with a
  literal character consumes one at least: the scanning loops below terminate.\<close>

lemma run_length:
  "run k s caps = Some (caps', rest) \<Longrightarrow> length rest \<le> length s"
proof (induction k s caps arbitrary: caps' rest rule: run.induct)
  case (1 s caps)
  then show ?case by simp
next
  case (2 p k caps)
  then show ?case by simp
next
  case (3 p k c cs caps)
  from 3(2) have pc: "p c" and r: "run k cs caps = Some (caps', rest)"
    by (simp_all split: if_splits)
  from 3(1)[OF pc r] show ?case by simp
next
  case (4 g n p k caps)
  then show ?case by simp
next
  case (5 g n p k c cs caps)
  from 5(2) have pc: "p c" and r: "run (Node (Rep g n p) # k) cs caps = Some (caps', rest)"
    by (simp_all split: if_splits)
  from 5(1)[OF pc r] show ?case by simp
next
  case (6 g p k caps)
  from 6(2) have "run k [] caps = Some (caps', rest)" by simp
  then show ?case by (rule 6(1))
next
  case (7 p k c cs caps)
  show ?case
  proof (cases "p c")
    case True
    show ?thesis
    proof (cases "run (Node (Rep True 0 p) # k) cs caps")
      case None
      with 7(4) True have "run k (c # cs) caps = Some (caps', rest)" by simp
      then show ?thesis by (rule 7(2)[OF True None])
    next
      case (Some r)
      with 7(4) True have "run (Node (Rep True 0 p) # k) cs caps = Some (caps', rest)" by simp
      from 7(1)[OF True this] show ?thesis by simp
    qed
  next
    case False
    with 7(4) have "run k (c # cs) caps = Some (caps', rest)" by simp
    then show ?thesis by (rule 7(3)[OF False])
  qed
next
  case (8 p k c cs caps)
  show ?case
  proof (cases "run k (c # cs) caps")
    case None
    with 8(3) have pc: "p c" and r: "run (Node (Rep False 0 p) # k) cs caps = Some (caps', rest)"
      by (simp_all split: if_splits)
    from 8(2)[OF None pc r] show ?thesis by simp
  next
    case (Some r)
    with 8(3) have "run k (c # cs) caps = Some (caps', rest)" by simp
    then show ?thesis by (rule 8(1))
  qed
next
  case (9 i ns k s caps)
  from 9(2) have "run (map Node ns @ Close i s # k) s caps = Some (caps', rest)" by simp
  then show ?case by (rule 9(1))
next
  case (10 i s0 k s caps)
  from 10(2) have "run k s ((i, take (length s0 - length s) s0) # caps) = Some (caps', rest)"
    by simp
  then show ?case by (rule 10(1))
next
  case (11 ns k s caps)
  show ?case
  proof (cases "run (map Node ns @ k) s caps")
    case None
    with 11(3) have "run k s caps = Some (caps', rest)" by simp
    then show ?thesis by (rule 11(2)[OF None])
  next
    case (Some r)
    with 11(3) have "run (map Node ns @ k) s caps = Some (caps', rest)" by simp
    then show ?thesis by (rule 11(1))
  qed
qed

lemma search_Lit_shorter:
  "search (Lit p # re) s = Some (caps, rest) \<Longrightarrow> length rest < length s"
proof (induction s)
  case Nil
  then show ?case by (simp add: matchStart_def)
next
  case (Cons c cs)
  show ?case
  proof (cases "matchStart (Lit p # re) (c # cs)")
    case None
    with Cons show ?thesis by simp
  next
    case (Some r)
    with Cons.prems have "run (map Node re) cs [] = Some (caps, rest)"
      by (simp add: matchStart_def split: if_splits)
    then show ?thesis using run_length by fastforce
  qed
qed

lemma createTableRegex_shorter:
  "search createTableRegex s = Some (caps, rest) \<Longrightarrow> length rest < length s"
  unfolding createTableRegex_def lits_def ci_def by (simp add: search_Lit_shorter)

lemma alterConstraintRegex_shorter:
  "search alterConstraintRegex s = Some (caps, rest) \<Longrightarrow> length rest < length s"
  unfolding alterConstraintRegex_def lits_def ci_def by (simp add: search_Lit_shorter)

text \<open>
  \<^verbatim>\<open>
  while ((match = createTableRegex.exec(sql)) !== null) {
    const tableName = cleanName(match[1]);
    const tableDefinition = match[2];
    ...
  }
  \<close>
\<close>

function scanCreateTables :: "string \<Rightarrow> schema \<Rightarrow> schema" where
  "scanCreateTables sql st =
     (case search createTableRegex sql of
        None \<Rightarrow> st
      | Some (m, rest) \<Rightarrow> scanCreateTables rest (processCreateTable st (group m 1) (group m 2)))"
  by pat_completeness auto
termination
  by (relation "measure (\<lambda>(sql, st). length sql)") (auto dest: createTableRegex_shorter)

declare scanCreateTables.simps [simp del]

text \<open>
  \<^verbatim>\<open>
  while ((match = alterConstraintRegex.exec(sql)) !== null) {
    const fromTable = cleanName(match[1]);
    const fromColumns = match[2].split(',').map(col => cleanName(col.trim()));
    const toTable = cleanName(match[3]);
    const toColumns = match[4].split(',').map(col => cleanName(col.trim()));
    relationships.push({ from: fromTable, to: toTable, fromColumns, toColumns });
  }
  \<close>
\<close>

function scanAlterConstraints :: "string \<Rightarrow> relationship list \<Rightarrow> relationship list" where
  "scanAlterConstraints sql rels =
     (case search alterConstraintRegex sql of
        None \<Rightarrow> rels
      | Some (m, rest) \<Rightarrow>
          scanAlterConstraints rest
            (rels @ [\<lparr>rel_from = cleanName (group m 1), rel_to = cleanName (group m 3),
                      fromColumns = cleanColumns (group m 2),
                      toColumns = cleanColumns (group m 4)\<rparr>]))"
  by pat_completeness auto
termination
  by (relation "measure (\<lambda>(sql, rels). length sql)") (auto dest: alterConstraintRegex_shorter)

declare scanAlterConstraints.simps [simp del]

text \<open>The two passes over the dump, from the empty \<^verbatim>\<open>tables\<close> and \<^verbatim>\<open>relationships\<close>.\<close>

definition buildSchema :: "string \<Rightarrow> schema" where
  "buildSchema sql =
     (let st = scanCreateTables sql \<lparr>tables = [], relationships = []\<rparr>
      in \<lparr>tables = tables st,
          relationships = scanAlterConstraints sql (relationships st)\<rparr>)"


section \<open>The diagram renderer\<close>

text \<open>
  Output text is a \<^typ>\<open>string\<close> too.  The characters of the script's literals that are
  not ASCII are written as their UTF-8 bytes, as they reach the files.  Template
  literals print a number in decimal.
\<close>

definition digitChar :: "nat \<Rightarrow> char" where
  "digitChar d = char_of (48 + d)"

fun showNat :: "nat \<Rightarrow> string" where
  "showNat n = (if n < 10 then [digitChar n] else showNat (n div 10) @ [digitChar (n mod 10)])"

declare showNat.simps [simp del]

definition nl :: string where "nl = [CHR 0x0A]"
definition dq :: string where "dq = [CHR 0x22]"
definition fence :: string where "fence = [CHR 0x60, CHR 0x60, CHR 0x60]"
definition I_acute :: string where "I_acute = [CHR 0xC3, CHR 0x8D]"
definition a_acute :: string where "a_acute = [CHR 0xC3, CHR 0xA1]"
definition i_acute :: string where "i_acute = [CHR 0xC3, CHR 0xAD]"
definition o_acute :: string where "o_acute = [CHR 0xC3, CHR 0xB3]"
definition leftArrow :: string where
  "leftArrow = [CHR 0xE2, CHR 0xAC, CHR 0x85, CHR 0xEF, CHR 0xB8, CHR 0x8F]"
definition house :: string where
  "house = [CHR 0xF0, CHR 0x9F, CHR 0x8F, CHR 0xA0]"
definition rightArrow :: string where
  "rightArrow = [CHR 0xE2, CHR 0x9E, CHR 0xA1, CHR 0xEF, CHR 0xB8, CHR 0x8F]"

text \<open>\<^verbatim>\<open>list.join(sep)\<close>\<close>

fun joinWith :: "string \<Rightarrow> string list \<Rightarrow> string" where
  "joinWith sep [] = []"
| "joinWith sep [x] = x"
| "joinWith sep (x # y # ys) = x @ sep @ joinWith sep (y # ys)"

text \<open>
  One column line of a diagram block:
  \<^verbatim>\<open>
  const cleanColumnName = cleanName(column.name);
  let columnDef = `        ${column.type} ${cleanColumnName}`;
  if (column.isPrimaryKey) { columnDef += ' PK'; }
  if (column.isNotNull && !column.isPrimaryKey) { columnDef += ' "NOT NULL"'; }
  mermaid += columnDef + '\n';
  \<close>
\<close>

definition addColumnDef :: "string \<Rightarrow> column \<Rightarrow> string" where
  "addColumnDef mermaid column =
     (let cleanColumnName = cleanName (col_name column);
          columnDef = ''        '' @ col_type column @ '' '' @ cleanColumnName;
          columnDef = (if isPrimaryKey column then columnDef @ '' PK'' else columnDef);
          columnDef = (if isNotNull column \<and> \<not> isPrimaryKey column
                       then columnDef @ '' '' @ dq @ ''NOT NULL'' @ dq else columnDef)
      in mermaid @ columnDef @ nl)"

text \<open>
  One table block:
  \<^verbatim>\<open>
  const cleanTableName = cleanName(tableName);
  mermaid += `    ${cleanTableName} {\n`;
  for (const column of tableInfo.columns) { ... }
  mermaid += '    }\n\n';
  \<close>
\<close>

definition addTableBlock :: "string \<Rightarrow> string \<times> table \<Rightarrow> string" where
  "addTableBlock mermaid entry =
     (case entry of (tableName, tableInfo) \<Rightarrow>
        let cleanTableName = cleanName tableName;
            mermaid = mermaid @ ''    '' @ cleanTableName @ '' {'' @ nl;
            mermaid = foldl addColumnDef mermaid (columns tableInfo)
        in mermaid @ ''    }'' @ nl @ nl)"

text \<open>The relationship line
  \<^verbatim>\<open>`    ${cleanFromTable} ||--o{ ${cleanToTable} : "references"\n`\<close>.\<close>

definition relLine :: "relationship \<Rightarrow> string" where
  "relLine rel =
     ''    '' @ cleanName (rel_from rel) @ '' ||--o{ '' @ cleanName (rel_to rel) @
     '' : '' @ dq @ ''references'' @ dq @ nl"

text \<open>
  The relationship loop of the single diagram:
  \<^verbatim>\<open>
  for (const rel of relationships) {
    const cleanFromTable = cleanName(rel.from);
    const cleanToTable = cleanName(rel.to);
    if (tables.has(rel.from) && tables.has(rel.to)) {
      mermaid += `    ${cleanFromTable} ||--o{ ${cleanToTable} : "references"\n`;
    }
  }
  \<close>
\<close>

definition addRelLine :: "table_map \<Rightarrow> string \<Rightarrow> relationship \<Rightarrow> string" where
  "addRelLine tbls mermaid rel =
     (if mapHas tbls (rel_from rel) \<and> mapHas tbls (rel_to rel)
      then mermaid @ relLine rel else mermaid)"

text \<open>The row of a relationship table:
  \<^verbatim>\<open>`| ${rel.from} | ${rel.fromColumns.join(', ')} | ${rel.to} | ${rel.toColumns.join(', ')} |\n`\<close>\<close>

definition relRow :: "relationship \<Rightarrow> string" where
  "relRow rel =
     ''| '' @ rel_from rel @ '' | '' @ joinWith '', '' (fromColumns rel) @ '' | '' @
     rel_to rel @ '' | '' @ joinWith '', '' (toColumns rel) @ '' |'' @ nl"

definition addRelRow :: "string \<Rightarrow> relationship \<Rightarrow> string" where
  "addRelRow content rel = content @ relRow rel"

definition relTableHeader :: string where
  "relTableHeader =
     ''| Tabla Origen | Columna(s) | Tabla Destino | Columna(s) |'' @ nl @
     ''|--------------|------------|---------------|------------|'' @ nl"

text \<open>
  The listing of one table:
  \<^verbatim>\<open>
  content += `### ${tableName}\n\n`;
  content += `| Columna | Tipo | Caracteristicas |\n`;
  content += `|---------|------|----------------|\n`;
  for (const column of tableInfo.columns) {
    let characteristics = [];
    if (column.isPrimaryKey) characteristics.push('PK');
    if (column.isNotNull) characteristics.push('NOT NULL');
    content += `| ${column.name} | ${column.type} | ${characteristics.join(', ')} |\n`;
  }
  content += `\n`;
  \<close>
\<close>

definition addColumnRow :: "string \<Rightarrow> column \<Rightarrow> string" where
  "addColumnRow content column =
     (let characteristics = [];
          characteristics = (if isPrimaryKey column then characteristics @ [''PK'']
                             else characteristics);
          characteristics = (if isNotNull column then characteristics @ [''NOT NULL'']
                             else characteristics)
      in content @ ''| '' @ col_name column @ '' | '' @ col_type column @ '' | '' @
         joinWith '', '' characteristics @ '' |'' @ nl)"

definition addTableListing :: "string \<Rightarrow> string \<times> table \<Rightarrow> string" where
  "addTableListing content entry =
     (case entry of (tableName, tableInfo) \<Rightarrow>
        let content = content @ ''### '' @ tableName @ nl @ nl;
            content = content @ ''| Columna | Tipo | Caracter'' @ i_acute @ ''sticas |'' @ nl;
            content = content @ ''|---------|------|----------------|'' @ nl;
            content = foldl addColumnRow content (columns tableInfo)
        in content @ nl)"

text \<open>\<^verbatim>\<open>array.slice(start, end)\<close> for \<open>0 \<le> start\<close> and \<open>0 \<le> end\<close>.\<close>

definition slice :: "nat \<Rightarrow> nat \<Rightarrow> 'a list \<Rightarrow> 'a list" where
  "slice start end xs = take (end - start) (drop start xs)"

subsection \<open>Partitioned output\<close>

text \<open>
  \<^verbatim>\<open>new Date().toLocaleString('es-ES')\<close> reads the clock; \<open>clock n\<close> is the text of
  the reading number \<open>n\<close> of a run.  \<^verbatim>\<open>generateMarkdownContent\<close> takes reading 0, the
  index header reading 1 and the partition with index \<open>i\<close> reading \<open>2 + i\<close>.
  \<^verbatim>\<open>fs.writeFileSync(path, content)\<close> is modelled by the list of the pairs
  \<open>(path, content)\<close> written, in order; a write is taken to succeed.
\<close>

type_synonym files = "(string \<times> string) list"

definition partitionSize :: nat where
  "partitionSize = 50"

text \<open>
  \<^verbatim>\<open>
  const startIndex = i * partitionSize;
  const endIndex = Math.min(startIndex + partitionSize, tablesArray.length);
  const partitionTables = tablesArray.slice(startIndex, endIndex);
  \<close>
\<close>

definition partitionTablesOf :: "table_map \<Rightarrow> nat \<Rightarrow> table_map" where
  "partitionTablesOf tablesArray i =
     (let startIndex = i * partitionSize;
          endIndex = min (startIndex + partitionSize) (length tablesArray)
      in slice startIndex endIndex tablesArray)"

text \<open>
  The relationship loop of a partition:
  \<^verbatim>\<open>
  const partitionTableNames = partitionTables.map(([name]) => name);
  let partitionRelationships = [];
  for (const rel of relationships) {
    if (partitionTableNames.includes(rel.from) && partitionTableNames.includes(rel.to)) {
      const cleanFromTable = cleanName(rel.from);
      const cleanToTable = cleanName(rel.to);
      partitionContent += `    ${cleanFromTable} ||--o{ ${cleanToTable} : "references"\n`;
      partitionRelationships.push(rel);
    }
  }
  \<close>
\<close>

definition addPartitionRel ::
  "string list \<Rightarrow> string \<times> relationship list \<Rightarrow> relationship \<Rightarrow> string \<times> relationship list" where
  "addPartitionRel partitionTableNames st rel =
     (case st of (partitionContent, partitionRelationships) \<Rightarrow>
        if rel_from rel \<in> set partitionTableNames \<and> rel_to rel \<in> set partitionTableNames
        then (partitionContent @ relLine rel, partitionRelationships @ [rel])
        else st)"

definition partitionFileNameOf :: "string \<Rightarrow> nat \<Rightarrow> string" where
  "partitionFileNameOf outputBaseName i = outputBaseName @ ''_parte_'' @ showNat (i + 1) @ ''.md''"

text \<open>
  The content of the partition with index \<open>i\<close> is built in three parts.  The first is the
  title, the metadata and the navigation (lines 254 to 268 of the script).
  \<open>totalPartitions - 1\<close> is only read inside the loop, where \<open>totalPartitions\<close> is
  positive.
\<close>

definition partitionHeader ::
  "(nat \<Rightarrow> string) \<Rightarrow> table_map \<Rightarrow> string \<Rightarrow> nat \<Rightarrow> nat \<Rightarrow> string" where
  "partitionHeader clock tablesArray outputBaseName totalPartitions i =
     (let startIndex = i * partitionSize;
          endIndex = min (startIndex + partitionSize) (length tablesArray);
          partitionTables = partitionTablesOf tablesArray i;
          partitionFileName = partitionFileNameOf outputBaseName i;
          partitionContent =
            ''# DER - Partici'' @ o_acute @ ''n '' @ showNat (i + 1) @ '' de '' @
            showNat totalPartitions @ nl @ nl;
          partitionContent = partitionContent @
            ''**Tablas:** '' @ showNat (startIndex + 1) @ '' - '' @ showNat endIndex @
            '' ('' @ showNat (length partitionTables) @ '' tablas)  '' @ nl;
          partitionContent = partitionContent @
            ''**Archivo:** '' @ partitionFileName @ ''  '' @ nl;
          partitionContent = partitionContent @
            ''**Generado el:** '' @ clock (2 + i) @ ''  '' @ nl @ nl;
          partitionContent = partitionContent @ ''## Navegaci'' @ o_acute @ ''n'' @ nl @ nl;
          partitionContent =
            (if i > 0
             then partitionContent @ leftArrow @ '' [Partici'' @ o_acute @ ''n anterior ('' @
                  showNat i @ '')]('' @ outputBaseName @ ''_parte_'' @ showNat i @ ''.md)  '' @ nl
             else partitionContent);
          partitionContent = partitionContent @
            house @ '' ['' @ I_acute @ ''ndice principal]('' @ outputBaseName @
            ''_index.md)  '' @ nl;
          partitionContent =
            (if i < totalPartitions - 1
             then partitionContent @ rightArrow @ '' [Partici'' @ o_acute @ ''n siguiente ('' @
                  showNat (i + 2) @ '')]('' @ outputBaseName @ ''_parte_'' @ showNat (i + 2) @
                  ''.md)  '' @ nl
             else partitionContent)
      in partitionContent @ nl)"

text \<open>The last part is the listing of the tables and of the relationships of the
  partition, and the footer (lines 312 to 342), added to the content so far.\<close>

definition partitionListing ::
  "string \<Rightarrow> table_map \<Rightarrow> relationship list \<Rightarrow> nat \<Rightarrow> nat \<Rightarrow> string" where
  "partitionListing partitionContent partitionTables partitionRelationships totalPartitions i =
     (let partitionContent = partitionContent @
            ''## Tablas en esta Partici'' @ o_acute @ ''n'' @ nl @ nl;
          partitionContent = foldl addTableListing partitionContent partitionTables;
          partitionContent =
            (if length partitionRelationships > 0
             then
               (let partitionContent = partitionContent @
                      ''## Relaciones en esta Partici'' @ o_acute @ ''n'' @ nl @ nl;
                    partitionContent = partitionContent @ relTableHeader;
                    partitionContent = foldl addRelRow partitionContent partitionRelationships
                in partitionContent @ nl)
             else partitionContent);
          partitionContent = partitionContent @ ''---'' @ nl @ nl
      in partitionContent @
           ''*Partici'' @ o_acute @ ''n '' @ showNat (i + 1) @ '' de '' @
           showNat totalPartitions @
           '' - Generado autom'' @ a_acute @ ''ticamente por generate_der.js*'' @ nl)"

text \<open>Between them comes the diagram block (lines 270 to 310).  The result is the
  content of the partition and the relationships it shows.\<close>

definition partitionDocument ::
  "(nat \<Rightarrow> string) \<Rightarrow> table_map \<Rightarrow> relationship list \<Rightarrow> string \<Rightarrow> nat \<Rightarrow> nat
     \<Rightarrow> string \<times> relationship list" where
  "partitionDocument clock tablesArray rels outputBaseName totalPartitions i =
     (let partitionTables = partitionTablesOf tablesArray i;
          partitionContent = partitionHeader clock tablesArray outputBaseName totalPartitions i;
          partitionContent = partitionContent @ ''## Diagrama'' @ nl @ nl;
          partitionContent = partitionContent @ fence @ ''mermaid'' @ nl;
          partitionContent = partitionContent @ ''erDiagram'' @ nl;
          partitionContent = foldl addTableBlock partitionContent partitionTables;
          partitionTableNames = map fst partitionTables
      in case foldl (addPartitionRel partitionTableNames) (partitionContent, []) rels of
           (partitionContent, partitionRelationships) \<Rightarrow>
             let partitionContent = partitionContent @ fence @ nl @ nl
             in (partitionListing partitionContent partitionTables partitionRelationships
                   totalPartitions i,
                 partitionRelationships))"

text \<open>
  One round of the partition loop: the file is written and the index gets its entry.
  \<^verbatim>\<open>
  indexContent += `### [Particion ${i + 1}](${partitionFileName})\n`;
  indexContent += `- **Tablas:** ${startIndex + 1} - ${endIndex}\n`;
  indexContent += `- **Cantidad:** ${partitionTables.length} tablas\n`;
  indexContent += `- **Relaciones:** ${partitionRelationships.length} relaciones internas\n`;
  indexContent += `- **Primeras tablas:** ${partitionTables.slice(0, 3).map(([name]) => name)
                      .join(', ')}${partitionTables.length > 3 ? '...' : ''}\n\n`;
  \<close>
\<close>

definition partitionStep ::
  "(nat \<Rightarrow> string) \<Rightarrow> table_map \<Rightarrow> relationship list \<Rightarrow> string \<Rightarrow> nat
     \<Rightarrow> string \<times> files \<Rightarrow> nat \<Rightarrow> string \<times> files" where
  "partitionStep clock tablesArray rels outputBaseName totalPartitions st i =
     (case st of (indexContent, written) \<Rightarrow>
        let startIndex = i * partitionSize;
            endIndex = min (startIndex + partitionSize) (length tablesArray);
            partitionTables = partitionTablesOf tablesArray i;
            partitionFileName = partitionFileNameOf outputBaseName i
        in case partitionDocument clock tablesArray rels outputBaseName totalPartitions i of
             (partitionContent, partitionRelationships) \<Rightarrow>
               let written = written @ [(partitionFileName, partitionContent)];
                   indexContent = indexContent @
                     ''### [Partici'' @ o_acute @ ''n '' @ showNat (i + 1) @ '']('' @
                     partitionFileName @ '')'' @ nl;
                   indexContent = indexContent @
                     ''- **Tablas:** '' @ showNat (startIndex + 1) @ '' - '' @
                     showNat endIndex @ nl;
                   indexContent = indexContent @
                     ''- **Cantidad:** '' @ showNat (length partitionTables) @ '' tablas'' @ nl;
                   indexContent = indexContent @
                     ''- **Relaciones:** '' @ showNat (length partitionRelationships) @
                     '' relaciones internas'' @ nl;
                   indexContent = indexContent @
                     ''- **Primeras tablas:** '' @
                     joinWith '', '' (map fst (slice 0 3 partitionTables)) @
                     (if length partitionTables > 3 then ''...'' else []) @ nl @ nl
               in (indexContent, written))"

text \<open>The header of the index (lines 239 to 245) and its summary (lines 360 to 374),
  the latter added to the content so far.\<close>

definition indexHeader :: "(nat \<Rightarrow> string) \<Rightarrow> relationship list \<Rightarrow> table_map \<Rightarrow> nat \<Rightarrow> string" where
  "indexHeader clock rels tablesArray totalPartitions =
     (let indexContent =
            ''# '' @ I_acute @ ''ndice de Diagramas DER - Base de Datos'' @ nl @ nl;
          indexContent = indexContent @ ''**Generado el:** '' @ clock 1 @ ''  '' @ nl;
          indexContent = indexContent @
            ''**Total de tablas:** '' @ showNat (length tablesArray) @ ''  '' @ nl;
          indexContent = indexContent @
            ''**Total de relaciones:** '' @ showNat (length rels) @ ''  '' @ nl;
          indexContent = indexContent @
            ''**Particiones generadas:** '' @ showNat totalPartitions @ ''  '' @ nl @ nl
      in indexContent @ ''## Particiones Disponibles'' @ nl @ nl)"

definition indexSummary :: "string \<Rightarrow> relationship list \<Rightarrow> string" where
  "indexSummary indexContent rels =
     (let indexContent = indexContent @ ''## Resumen Completo'' @ nl @ nl;
          indexContent = indexContent @ ''### Todas las Relaciones'' @ nl @ nl;
          indexContent =
            (if length rels > 0
             then
               (let indexContent = indexContent @ relTableHeader;
                    indexContent = foldl addRelRow indexContent rels
                in indexContent @ nl)
             else indexContent);
          indexContent = indexContent @ ''---'' @ nl @ nl
      in indexContent @
           ''*'' @ I_acute @ ''ndice generado autom'' @ a_acute @
           ''ticamente por generate_der.js*'' @ nl)"

text \<open>
  \<^verbatim>\<open>generatePartitionedDiagrams(tablesArray, outputBaseName)\<close> returns the index
  content and has written the partition files.  \<^verbatim>\<open>Math.ceil(n / 50)\<close> is
  \<open>(n + 49) div 50\<close> for a length \<open>n\<close>; the loop
  \<^verbatim>\<open>for (let i = 0; i < totalPartitions; i++)\<close> runs over \<open>[0..<totalPartitions]\<close>.
\<close>

definition generatePartitionedDiagrams ::
  "(nat \<Rightarrow> string) \<Rightarrow> relationship list \<Rightarrow> table_map \<Rightarrow> string \<Rightarrow> string \<times> files" where
  "generatePartitionedDiagrams clock rels tablesArray outputBaseName =
     (let totalPartitions = (length tablesArray + (partitionSize - 1)) div partitionSize;
          indexContent = indexHeader clock rels tablesArray totalPartitions
      in case foldl (partitionStep clock tablesArray rels outputBaseName totalPartitions)
                (indexContent, []) [0..<totalPartitions] of
           (indexContent, written) \<Rightarrow> (indexSummary indexContent rels, written))"

subsection \<open>The single diagram and the document\<close>

text \<open>
  \<^verbatim>\<open>
  function generateMermaidDiagram(outputBaseName) {
    const tablesArray = Array.from(tables.entries());
    const totalTables = tablesArray.length;
    if (totalTables > 100) {
      return generatePartitionedDiagrams(tablesArray, outputBaseName);
    }
    let mermaid = 'erDiagram\n';
    for (const [tableName, tableInfo] of tablesArray) { ... }
    for (const rel of relationships) { ... }
    return mermaid;
  }
  \<close>
\<close>

definition generateMermaidDiagram ::
  "(nat \<Rightarrow> string) \<Rightarrow> schema \<Rightarrow> string \<Rightarrow> string \<times> files" where
  "generateMermaidDiagram clock sch outputBaseName =
     (let tablesArray = tables sch;
          totalTables = length tablesArray
      in if totalTables > 100
         then generatePartitionedDiagrams clock (relationships sch) tablesArray outputBaseName
         else
           (let mermaid = ''erDiagram'' @ nl;
                mermaid = foldl addTableBlock mermaid tablesArray;
                mermaid = foldl (addRelLine (tables sch)) mermaid (relationships sch)
            in (mermaid, [])))"

text \<open>\<^verbatim>\<open>generateMarkdownContent(outputBaseName)\<close> (lines 380 to 436): the header of the
  single document (lines 391 to 395), the diagram block, and the listing of the tables
  and of the relationships with the footer (lines 402 to 432), added to the content so
  far.\<close>

definition documentHeader :: "(nat \<Rightarrow> string) \<Rightarrow> string \<Rightarrow> schema \<Rightarrow> string" where
  "documentHeader clock inputFile sch =
     (let timestamp = clock 0;
          tableCount = length (tables sch);
          relationshipCount = length (relationships sch);
          content = ''# Diagrama de Entidad-Relaci'' @ o_acute @ ''n (DER)'' @ nl @ nl;
          content = content @ ''**Generado el:** '' @ timestamp @ ''  '' @ nl;
          content = content @ ''**Archivo fuente:** '' @ inputFile @ ''  '' @ nl;
          content = content @ ''**Tablas encontradas:** '' @ showNat tableCount @ ''  '' @ nl
      in content @ ''**Relaciones encontradas:** '' @ showNat relationshipCount @ ''  '' @ nl @ nl)"

definition documentListing :: "string \<Rightarrow> schema \<Rightarrow> string" where
  "documentListing content sch =
     (let content = content @ ''## Tablas'' @ nl @ nl;
          content = foldl addTableListing content (tables sch);
          content =
            (if length (relationships sch) > 0
             then
               (let content = content @ ''## Relaciones'' @ nl @ nl;
                    content = content @ relTableHeader;
                    content = foldl addRelRow content (relationships sch)
                in content @ nl)
             else content);
          content = content @ ''---'' @ nl @ nl
      in content @ ''*Generado autom'' @ a_acute @ ''ticamente por generate_der.js*'' @ nl)"

definition generateMarkdownContent ::
  "(nat \<Rightarrow> string) \<Rightarrow> string \<Rightarrow> schema \<Rightarrow> string \<Rightarrow> string \<times> files" where
  "generateMarkdownContent clock inputFile sch outputBaseName =
     (let tableCount = length (tables sch)
      in if tableCount > 100
         then generateMermaidDiagram clock sch outputBaseName
         else
           (let content = documentHeader clock inputFile sch;
                content = content @ ''## Diagrama'' @ nl @ nl;
                content = content @ fence @ ''mermaid'' @ nl
            in case generateMermaidDiagram clock sch outputBaseName of
                 (mermaid, written) \<Rightarrow>
                   let content = content @ mermaid;
                       content = content @ fence @ nl @ nl
                   in (documentListing content sch, written)))"

text \<open>
  The end of the script: nothing is written for an empty schema; otherwise the content
  goes to the index file when there are more than 100 tables, and to the output file
  when not.  \<open>outputBaseName\<close> is \<^verbatim>\<open>path.basename(outputFile, '.md')\<close>.
  \<^verbatim>\<open>
  if (tables.size === 0) { ...; process.exit(0); }
  const markdownContent = generateMarkdownContent(outputBaseName);
  if (tables.size > 100) {
    const indexFileName = `${outputBaseName}_index.md`;
    fs.writeFileSync(path.resolve(indexFileName), markdownContent);
  } else {
    fs.writeFileSync(path.resolve(outputFile), markdownContent);
  }
  \<close>
\<close>

definition writeOutput ::
  "(nat \<Rightarrow> string) \<Rightarrow> string \<Rightarrow> string \<Rightarrow> string \<Rightarrow> schema \<Rightarrow> files" where
  "writeOutput clock inputFile outputFile outputBaseName sch =
     (if length (tables sch) = 0 then []
      else case generateMarkdownContent clock inputFile sch outputBaseName of
             (markdownContent, written) \<Rightarrow>
               if length (tables sch) > 100
               then (let indexFileName = outputBaseName @ ''_index.md''
                     in written @ [(indexFileName, markdownContent)])
               else written @ [(outputFile, markdownContent)])"

definition generateDer ::
  "(nat \<Rightarrow> string) \<Rightarrow> string \<Rightarrow> string \<Rightarrow> string \<Rightarrow> string \<Rightarrow> files" where
  "generateDer clock inputFile outputFile outputBaseName sql =
     writeOutput clock inputFile outputFile outputBaseName (buildSchema sql)"

section \<open>Evaluation on concrete text\<close>

text \<open>The equations that unfold the model on a concrete input.\<close>

lemmas char_eval = isSpace_Char isLower_Char isUpper_Char isDigit_Char toUpperChar_Char

lemmas rx_eval = matchStart_def group_def ci_def lits_def chr_def anyChar_def notSpace_def
  notSpaceParen_def notSemicolon_def notClose_def notSpaceCommaParen_def
  createTableRegex_def pkRegex_def fkRegex_def columnRegex_def alterConstraintRegex_def

lemmas name_eval = cleanName_def stripQuoting_def isQuoting_def replaceDots_def
  replaceHash_def replaceOther_def isWordChar_def trim_def trimStart_def toUpperCase_def

lemmas parse_eval = splitDefinition_def splitStep_def cleanColumns_def digitsThenParen_def
  parseColumn_def isBlank_def isConstraintMember_def processConstraint_def processLine_def
  parseBody_def processCreateTable_def simplifyDataType_def
  scanCreateTables.simps scanAlterConstraints.simps buildSchema_def

section \<open>The name normaliser: results\<close>

lemma isWordChar_not_space: "isWordChar c \<Longrightarrow> \<not> isSpace c"
  by (auto simp: isWordChar_def isSpace_def isLower_def isUpper_def isDigit_def code_def)

lemma isWordChar_not_quoting: "isWordChar c \<Longrightarrow> \<not> isQuoting c"
  by (auto simp: isWordChar_def isQuoting_def isLower_def isUpper_def isDigit_def code_def)

lemma isWordChar_not_dot: "isWordChar c \<Longrightarrow> c \<noteq> CHR ''.''"
  by (auto simp: isWordChar_def isLower_def isUpper_def isDigit_def code_def)

lemma isWordChar_not_hash: "isWordChar c \<Longrightarrow> c \<noteq> CHR ''#''"
  by (auto simp: isWordChar_def isLower_def isUpper_def isDigit_def code_def)

lemma trim_no_space:
  assumes "list_all (\<lambda>c. \<not> isSpace c) s"
  shows "trim s = s"
proof -
  have keep: "dropWhile isSpace t = t" if "list_all (\<lambda>c. \<not> isSpace c) t" for t
    using that by (cases t) auto
  have "list_all (\<lambda>c. \<not> isSpace c) (rev s)"
    using assms by (simp add: list_all_iff)
  with assms show ?thesis
    by (simp add: trim_def trimStart_def keep)
qed

text \<open>Whatever the input, the result is made of letters, digits and underscores.\<close>

lemma replaceOther_word: "list_all isWordChar (replaceOther s)"
  by (induction s) (auto simp: replaceOther_def isWordChar_def)

lemma cleanName_word: "list_all isWordChar (cleanName s)"
proof -
  let ?t = "replaceOther (replaceHash (replaceDots (stripQuoting s)))"
  have w: "list_all isWordChar ?t"
    by (rule replaceOther_word)
  then have "list_all (\<lambda>c. \<not> isSpace c) ?t"
    by (auto simp: list_all_iff isWordChar_not_space)
  then have "trim ?t = ?t"
    by (rule trim_no_space)
  with w show ?thesis
    by (simp add: cleanName_def)
qed

text \<open>A string of letters, digits and underscores is left as it is.\<close>

lemma cleanName_fixes_words:
  assumes w: "list_all isWordChar s"
  shows "cleanName s = s"
proof -
  have 1: "stripQuoting s = s"
    using w by (induction s) (auto simp: stripQuoting_def isWordChar_not_quoting)
  have 2: "replaceDots s = s"
    using w by (induction s) (auto simp: replaceDots_def isWordChar_not_dot)
  have 3: "replaceHash s = s"
    using w by (induction s) (auto simp: replaceHash_def isWordChar_not_hash)
  have 4: "replaceOther s = s"
    using w by (induction s) (auto simp: replaceOther_def)
  have 5: "trim s = s"
    using w by (intro trim_no_space) (auto simp: list_all_iff isWordChar_not_space)
  show ?thesis
    by (simp add: cleanName_def 1 2 3 4 5)
qed

text \<open>
  Claim C9.  The name normaliser is idempotent: for every string \<open>s\<close>, normalising the
  result of \<open>cleanName s\<close> again leaves it unchanged.
\<close>

theorem cleanName_idempotent: "cleanName (cleanName s) = cleanName s"
  by (rule cleanName_fixes_words) (rule cleanName_word)


section \<open>The schema builder: examples\<close>

text \<open>
  Claim C1.  For the dump
  \<^verbatim>\<open>CREATE TABLE EMP (ID NUMBER PRIMARY KEY, NAME VARCHAR(50) NOT NULL);\<close>
  the claim expects one table \<open>EMP\<close> with the columns \<open>ID\<close> (NUMBER, primary key) and
  \<open>NAME\<close> (STRING, not null), and no relationship.  The lazy body group of
  \<open>createTableRegex\<close> ends at the first closing parenthesis, the one of
  \<^verbatim>\<open>VARCHAR(50)\<close>, so the member of \<open>NAME\<close> is read as \<^verbatim>\<open>NAME VARCHAR(50\<close> and its
  \<^verbatim>\<open>NOT NULL\<close> is lost: the script builds the table with \<open>isNotNull\<close> false for
  \<open>NAME\<close>.
\<close>

theorem emp_example_schema:
  "buildSchema ''CREATE TABLE EMP (ID NUMBER PRIMARY KEY, NAME VARCHAR(50) NOT NULL);'' =
     \<lparr>tables =
        [(''EMP'',
          \<lparr>columns =
             [\<lparr>col_name = ''ID'', col_type = ''NUMBER'', isPrimaryKey = True, isNotNull = False\<rparr>,
              \<lparr>col_name = ''NAME'', col_type = ''STRING'', isPrimaryKey = False,
                 isNotNull = False\<rparr>],
           constraints = []\<rparr>)],
      relationships = []\<rparr>"
  by (simp add: char_eval rx_eval name_eval parse_eval)

section \<open>Tables of the schema have columns\<close>

definition hasColumns :: "string \<times> table \<Rightarrow> bool" where
  "hasColumns entry = (columns (snd entry) \<noteq> [])"

lemma mapSet_list_all:
  "P (k, v) \<Longrightarrow> list_all P m \<Longrightarrow> list_all P (mapSet k v m)"
  by (induction m) auto

lemma processCreateTable_hasColumns:
  assumes "list_all hasColumns (tables st)"
  shows "list_all hasColumns (tables (processCreateTable st m1 m2))"
proof -
  obtain cols cons rels
    where p: "parseBody (cleanName m1) m2 (relationships st) = (cols, cons, rels)"
    by (cases "parseBody (cleanName m1) m2 (relationships st)") auto
  show ?thesis
  proof (cases "cols = []")
    case True
    with p assms show ?thesis by (simp add: processCreateTable_def)
  next
    case False
    then have "hasColumns (cleanName m1, \<lparr>columns = cols, constraints = cons\<rparr>)"
      by (simp add: hasColumns_def)
    with assms have "list_all hasColumns
        (mapSet (cleanName m1) \<lparr>columns = cols, constraints = cons\<rparr> (tables st))"
      by (simp add: mapSet_list_all)
    with p False show ?thesis by (simp add: processCreateTable_def)
  qed
qed

lemma scanCreateTables_hasColumns:
  "list_all hasColumns (tables st) \<Longrightarrow> list_all hasColumns (tables (scanCreateTables sql st))"
proof (induction sql st rule: scanCreateTables.induct)
  case (1 sql st)
  show ?case
  proof (cases "search createTableRegex sql")
    case None
    with 1 show ?thesis by (simp add: scanCreateTables.simps)
  next
    case (Some r)
    obtain m rest where r: "r = (m, rest)" by (cases r)
    have "list_all hasColumns (tables (processCreateTable st (group m 1) (group m 2)))"
      using 1(2) by (rule processCreateTable_hasColumns)
    with 1(1)[OF Some[unfolded r] refl] Some r show ?thesis
      by (simp add: scanCreateTables.simps)
  qed
qed

lemma processCreateTable_no_columns:
  "fst (parseBody (cleanName m1) m2 (relationships st)) = [] \<Longrightarrow>
   tables (processCreateTable st m1 m2) = tables st"
  by (cases "parseBody (cleanName m1) m2 (relationships st)") (simp add: processCreateTable_def)

text \<open>
  Claim C10.  Every table of the completed schema has at least one column, and a
  table-definition statement whose body gives no valid column leaves the table map as it
  was: for every dump \<open>sql\<close> each entry of \<open>tables (buildSchema sql)\<close> has a non-empty
  column list, and whenever the members of a body \<open>m2\<close> give no column, processing the
  match does not change \<open>tables\<close>.
\<close>

theorem schema_tables_have_columns:
  "list_all hasColumns (tables (buildSchema sql)) \<and>
   (fst (parseBody (cleanName m1) m2 (relationships st)) = [] \<longrightarrow>
      tables (processCreateTable st m1 m2) = tables st)"
  by (simp add: buildSchema_def Let_def scanCreateTables_hasColumns processCreateTable_no_columns)

text \<open>The statement \<^verbatim>\<open>CREATE TABLE T (PRIMARY KEY (ID));\<close> has the body
  \<^verbatim>\<open>PRIMARY KEY (ID\<close>, whose only member is filtered out as a column named
  \<open>PRIMARY\<close>: the table \<open>T\<close> is not registered.\<close>

theorem schema_tables_have_columns_witness:
  "fst (parseBody (cleanName ''T'') ''PRIMARY KEY (ID''
         (relationships \<lparr>tables = [], relationships = []\<rparr>)) = [] \<and>
   tables (processCreateTable \<lparr>tables = [], relationships = []\<rparr> ''T'' ''PRIMARY KEY (ID'') = [] \<and>
   list_all hasColumns
     (tables (buildSchema ''CREATE TABLE T (PRIMARY KEY (ID)); CREATE TABLE U (A DATE);''))"
proof -
  have h: "fst (parseBody (cleanName ''T'') ''PRIMARY KEY (ID''
                  (relationships \<lparr>tables = [], relationships = []\<rparr>)) = []"
    by (simp add: char_eval rx_eval name_eval parse_eval)
  from schema_tables_have_columns
         [of "''CREATE TABLE T (PRIMARY KEY (ID)); CREATE TABLE U (A DATE);''"
             "''T''" "''PRIMARY KEY (ID''" "\<lparr>tables = [], relationships = []\<rparr>"] h
  show ?thesis by simp
qed

section \<open>The splitter and the top-level commas\<close>

text \<open>
  The members of a body in the words of the specification.  The depth of a prefix is its
  number of opening parentheses minus its number of closing ones; a comma at position
  \<open>i\<close> is top-level when the depth of the text before it is zero; the members are the
  pieces of the body between consecutive top-level commas, the last one reaching to the
  end of the body.
\<close>

definition parenDepth :: "string \<Rightarrow> int" where
  "parenDepth s = int (count_list s CHR ''('') - int (count_list s CHR '')'')"

definition topLevelCommaAt :: "string \<Rightarrow> nat \<Rightarrow> bool" where
  "topLevelCommaAt body i =
     (i < length body \<and> body ! i = CHR '','' \<and> parenDepth (take i body) = 0)"

definition topLevelCommas :: "string \<Rightarrow> nat list" where
  "topLevelCommas body = filter (topLevelCommaAt body) [0..<length body]"

definition topLevelMembers :: "string \<Rightarrow> string list" where
  "topLevelMembers body =
     (let cuts = topLevelCommas body
      in map (\<lambda>(a, b). slice a b body) (zip (0 # map Suc cuts) (cuts @ [length body])))"

text \<open>For the proofs: the members but the last, and the last one (the text after the
  last top-level comma).\<close>

definition startAfter :: "nat \<Rightarrow> nat list \<Rightarrow> nat" where
  "startAfter a cs = (if cs = [] then a else Suc (last cs))"

definition membersBefore :: "string \<Rightarrow> string list" where
  "membersBefore body =
     map (\<lambda>(a, b). slice a b body) (zip (0 # map Suc (topLevelCommas body)) (topLevelCommas body))"

definition lastMember :: "string \<Rightarrow> string" where
  "lastMember body = drop (startAfter 0 (topLevelCommas body)) body"

lemma parenDepth_snoc:
  "parenDepth (p @ [c]) =
     parenDepth p + (if c = CHR ''('' then 1 else 0) - (if c = CHR '')'' then 1 else 0)"
  by (simp add: parenDepth_def)

lemma topLevelCommaAt_snoc:
  "i < length p \<Longrightarrow> topLevelCommaAt (p @ [c]) i = topLevelCommaAt p i"
  by (simp add: topLevelCommaAt_def nth_append)

lemma topLevelCommaAt_end:
  "topLevelCommaAt (p @ [c]) (length p) = (c = CHR '','' \<and> parenDepth p = 0)"
  by (simp add: topLevelCommaAt_def)

lemma topLevelCommas_snoc:
  "topLevelCommas (p @ [c]) =
     topLevelCommas p @ (if c = CHR '','' \<and> parenDepth p = 0 then [length p] else [])"
proof -
  have "filter (topLevelCommaAt (p @ [c])) [0..<length p] = filter (topLevelCommaAt p) [0..<length p]"
    by (rule filter_cong) (simp_all add: topLevelCommaAt_snoc)
  then show ?thesis
    by (simp add: topLevelCommas_def topLevelCommaAt_end)
qed

lemma topLevelCommas_less: "i \<in> set (topLevelCommas p) \<Longrightarrow> i < length p"
  by (simp add: topLevelCommas_def)

lemma startAfter_le: "startAfter 0 (topLevelCommas p) \<le> length p"
proof (cases "topLevelCommas p = []")
  case True
  then show ?thesis by (simp add: startAfter_def)
next
  case False
  then have "last (topLevelCommas p) \<in> set (topLevelCommas p)" by simp
  then have "last (topLevelCommas p) < length p" by (rule topLevelCommas_less)
  with False show ?thesis by (simp add: startAfter_def)
qed

lemma zip_snoc_cut:
  "zip (a # map Suc cs) (cs @ [k]) = zip (a # map Suc cs) cs @ [(startAfter a cs, k)]"
proof (induction cs arbitrary: a)
  case Nil
  show ?case by (simp add: startAfter_def)
next
  case (Cons c cs)
  have "startAfter a (c # cs) = startAfter (Suc c) cs"
    by (simp add: startAfter_def)
  with Cons[of "Suc c"] show ?case by simp
qed

lemma zip_drop_last: "length ys \<le> length xs \<Longrightarrow> zip (xs @ [x]) ys = zip xs ys"
  by (simp add: zip_append1)

lemma slice_snoc: "b \<le> length p \<Longrightarrow> slice a b (p @ [c]) = slice a b p"
  by (simp add: slice_def)

lemma slice_to_end: "slice a (length p) p = drop a p"
  by (simp add: slice_def)

lemma topLevelMembers_eq: "topLevelMembers body = membersBefore body @ [lastMember body]"
  by (simp add: topLevelMembers_def membersBefore_def lastMember_def Let_def zip_snoc_cut
      slice_to_end del: zip_Cons_Cons)

lemma membersBefore_same:
  "map (\<lambda>(a, b). slice a b (p @ [c])) (zip (0 # map Suc (topLevelCommas p)) (topLevelCommas p))
   = membersBefore p"
proof -
  have "\<And>x. x \<in> set (zip (0 # map Suc (topLevelCommas p)) (topLevelCommas p)) \<Longrightarrow>
          (case x of (a, b) \<Rightarrow> slice a b (p @ [c])) = (case x of (a, b) \<Rightarrow> slice a b p)"
  proof -
    fix x assume x: "x \<in> set (zip (0 # map Suc (topLevelCommas p)) (topLevelCommas p))"
    obtain a b where ab: "x = (a, b)" by (cases x)
    with x have "b \<in> set (topLevelCommas p)" by (auto dest: set_zip_rightD)
    then have "b \<le> length p" using topLevelCommas_less[of b p] by simp
    with ab show "(case x of (a, b) \<Rightarrow> slice a b (p @ [c])) = (case x of (a, b) \<Rightarrow> slice a b p)"
      by (simp add: slice_snoc)
  qed
  then show ?thesis unfolding membersBefore_def by (rule map_cong[OF refl])
qed

lemma membersBefore_snoc:
  "membersBefore (p @ [c]) =
     (if c = CHR '','' \<and> parenDepth p = 0 then membersBefore p @ [lastMember p]
      else membersBefore p)"
proof (cases "c = CHR '','' \<and> parenDepth p = 0")
  case False
  then have "topLevelCommas (p @ [c]) = topLevelCommas p"
    by (simp add: topLevelCommas_snoc)
  with False membersBefore_same[of p c] show ?thesis
    by (simp add: membersBefore_def)
next
  case True
  then have cuts: "topLevelCommas (p @ [c]) = topLevelCommas p @ [length p]"
    by (simp add: topLevelCommas_snoc)
  have "zip (0 # map Suc (topLevelCommas p @ [length p])) (topLevelCommas p @ [length p])
        = zip (0 # map Suc (topLevelCommas p)) (topLevelCommas p @ [length p])"
    using zip_drop_last[of "topLevelCommas p @ [length p]" "0 # map Suc (topLevelCommas p)" "Suc (length p)"]
    by simp
  also have "\<dots> = zip (0 # map Suc (topLevelCommas p)) (topLevelCommas p)
                  @ [(startAfter 0 (topLevelCommas p), length p)]"
    by (rule zip_snoc_cut)
  finally have z: "zip (0 # map Suc (topLevelCommas (p @ [c]))) (topLevelCommas (p @ [c]))
        = zip (0 # map Suc (topLevelCommas p)) (topLevelCommas p)
                  @ [(startAfter 0 (topLevelCommas p), length p)]"
    by (simp only: cuts)
  have "membersBefore (p @ [c]) = membersBefore p @ [slice (startAfter 0 (topLevelCommas p)) (length p) (p @ [c])]"
    unfolding membersBefore_def[of "p @ [c]"] z using membersBefore_same[of p c] by simp
  with True show ?thesis
    by (simp add: lastMember_def slice_snoc slice_to_end)
qed

lemma lastMember_snoc:
  "lastMember (p @ [c]) =
     (if c = CHR '','' \<and> parenDepth p = 0 then [] else lastMember p @ [c])"
  using startAfter_le[of p]
  by (auto simp: lastMember_def topLevelCommas_snoc startAfter_def split: if_splits)

lemma split_loop:
  "foldl splitStep ([], [], 0) p = (map trim (membersBefore p), lastMember p, parenDepth p)"
proof (induction p rule: rev_induct)
  case Nil
  show ?case
    by (simp add: membersBefore_def lastMember_def parenDepth_def topLevelCommas_def startAfter_def)
next
  case (snoc c p)
  have "foldl splitStep ([], [], 0) (p @ [c]) =
          splitStep (map trim (membersBefore p), lastMember p, parenDepth p) c"
    by (simp add: snoc)
  also have "\<dots> = (map trim (membersBefore (p @ [c])), lastMember (p @ [c]), parenDepth (p @ [c]))"
    by (auto simp: splitStep_def membersBefore_snoc lastMember_snoc parenDepth_snoc Let_def)
  finally show ?case .
qed

text \<open>
  Claim C5, as amended.  For every table body the splitter returns the trimmed members
  that precede a top-level comma, one per top-level comma and in order, followed by the
  trimmed last member when that one is not blank.  The body has one member more than it
  has top-level commas, so the splitter returns exactly as many strings as the body has
  members when the last member is not blank.  Only top-level commas separate members: a
  comma inside a parenthesised group causes no split.
\<close>

theorem splitDefinition_members:
  "splitDefinition body =
     map trim (butlast (topLevelMembers body)) @
     (if trim (last (topLevelMembers body)) = [] then []
      else [trim (last (topLevelMembers body))]) \<and>
   length (topLevelMembers body) = Suc (length (topLevelCommas body)) \<and>
   (trim (last (topLevelMembers body)) \<noteq> [] \<longrightarrow>
      length (splitDefinition body) = length (topLevelMembers body))"
proof -
  have 1: "splitDefinition body =
     map trim (butlast (topLevelMembers body)) @
     (if trim (last (topLevelMembers body)) = [] then []
      else [trim (last (topLevelMembers body))])"
    by (simp add: splitDefinition_def split_loop topLevelMembers_eq)
  have 2: "length (topLevelMembers body) = Suc (length (topLevelCommas body))"
    by (simp add: topLevelMembers_eq membersBefore_def)
  have 3: "length (splitDefinition body) = length (topLevelMembers body)"
    if "trim (last (topLevelMembers body)) \<noteq> []"
    using that by (simp add: 1 topLevelMembers_eq)
  from 1 2 3 show ?thesis by blast
qed

lemmas member_eval = topLevelMembers_def topLevelCommas_def topLevelCommaAt_def parenDepth_def
  slice_def upt_rec nth_Cons'

text \<open>The body \<^verbatim>\<open>A NUMBER(10,2), B CHAR(3)\<close> has two members; the comma of
  \<^verbatim>\<open>NUMBER(10,2)\<close> is at depth one.\<close>

theorem splitDefinition_members_witness:
  "trim (last (topLevelMembers ''A NUMBER(10,2), B CHAR(3)'')) \<noteq> [] \<and>
   topLevelMembers ''A NUMBER(10,2), B CHAR(3)'' = [''A NUMBER(10,2)'', '' B CHAR(3)''] \<and>
   splitDefinition ''A NUMBER(10,2), B CHAR(3)'' = [''A NUMBER(10,2)'', ''B CHAR(3)''] \<and>
   length (splitDefinition ''A NUMBER(10,2), B CHAR(3)'') =
     length (topLevelMembers ''A NUMBER(10,2), B CHAR(3)'')"
proof -
  have m: "topLevelMembers ''A NUMBER(10,2), B CHAR(3)'' = [''A NUMBER(10,2)'', '' B CHAR(3)'']"
    by (simp add: member_eval)
  have t: "trim '' B CHAR(3)'' = ''B CHAR(3)''" and t': "trim ''A NUMBER(10,2)'' = ''A NUMBER(10,2)''"
    by (simp_all add: char_eval name_eval)
  from splitDefinition_members[of "''A NUMBER(10,2), B CHAR(3)''"] m t t'
  show ?thesis by simp
qed

text \<open>
  Claim C5, as stated, fails on a body that ends with a top-level comma: the body
  \<^verbatim>\<open>A NUMBER,\<close> has two members, the second one empty, and the splitter returns
  one string.  An empty member is only dropped at the end: the body \<^verbatim>\<open>A,,B\<close> gives
  three strings, the second one empty.
\<close>

theorem splitDefinition_trailing_comma:
  "topLevelMembers ''A NUMBER,'' = [''A NUMBER'', []] \<and>
   splitDefinition ''A NUMBER,'' = [''A NUMBER''] \<and>
   length (splitDefinition ''A NUMBER,'') \<noteq> length (topLevelMembers ''A NUMBER,'') \<and>
   splitDefinition ''A,,B'' = [''A'', [], ''B'']"
  by (simp add: char_eval name_eval parse_eval member_eval)

section \<open>Columns and constraints of a table\<close>

text \<open>
  What one member contributes, read off the member loop: \<open>columnMember line\<close> is the
  column a member adds to \<^verbatim>\<open>columns\<close>, if any, and \<open>pkConstraintMember line\<close> the
  record it adds to \<^verbatim>\<open>constraints\<close>, if any.
\<close>

definition columnMember :: "string \<Rightarrow> column option" where
  "columnMember line0 =
     (let line = trim line0
      in if isBlank line \<or> isConstraintMember line then None else parseColumn line)"

definition pkConstraintMember :: "string \<Rightarrow> tconstraint option" where
  "pkConstraintMember line0 =
     (let line = trim line0
      in if \<not> isBlank line \<and> isConstraintMember line \<and>
            includesStr (toUpperCase line) ''PRIMARY KEY''
         then (case search pkRegex line of
                 None \<Rightarrow> None
               | Some (pkMatch, rest) \<Rightarrow>
                   Some \<lparr>con_type = ''PK'', con_columns = cleanColumns (group pkMatch 1)\<rparr>)
         else None)"

lemma processLine_columns:
  "fst (processLine tableName (cols, cons, rels) line) =
     cols @ (case columnMember line of None \<Rightarrow> [] | Some c \<Rightarrow> [c])"
  by (simp add: processLine_def processConstraint_def columnMember_def Let_def
      split: option.splits prod.splits)


lemma members_columns:
  "fst (foldl (processLine tableName) st lines) = fst st @ List.map_filter columnMember lines"
proof (induction lines arbitrary: st)
  case Nil
  show ?case by (simp add: map_filter_simps)
next
  case (Cons l ls)
  obtain cols cons rels where st: "st = (cols, cons, rels)" by (cases st) auto
  show ?case
    by (simp add: Cons st processLine_columns map_filter_simps split: option.splits)
qed




lemma map_of_mapSet: "map_of (mapSet k v m) k = Some v"
  by (induction m) auto

lemma stored_table:
  assumes "fst (parseBody (cleanName m1) m2 (relationships st)) \<noteq> []"
  shows "map_of (tables (processCreateTable st m1 m2)) (cleanName m1) =
           Some \<lparr>columns = fst (parseBody (cleanName m1) m2 (relationships st)),
                 constraints = fst (snd (parseBody (cleanName m1) m2 (relationships st)))\<rparr>"
  using assms
  by (cases "parseBody (cleanName m1) m2 (relationships st)")
     (simp add: processCreateTable_def map_of_mapSet)

lemmas member_kind_eval = columnMember_def pkConstraintMember_def map_filter_simps

text \<open>
  Claim C7, as amended.  The columns of a table are the columns of the accepted column
  members of its body, one record per member and in member order; nothing removes a
  record whose name is already there.  A statement that gives a column at all stores the
  table, under its normalised name, with exactly this list.  So the names of a table's
  columns are unique only when the accepted members have pairwise different normalised
  names.
\<close>

theorem table_columns_are_members:
  "fst (parseBody tableName body rels) = List.map_filter columnMember (splitDefinition body) \<and>
   (List.map_filter columnMember (splitDefinition m2) \<noteq> [] \<longrightarrow>
      map_option columns (map_of (tables (processCreateTable st m1 m2)) (cleanName m1)) =
        Some (List.map_filter columnMember (splitDefinition m2)))"
proof -
  have 1: "fst (parseBody t b r) = List.map_filter columnMember (splitDefinition b)" for t b r
    by (simp add: parseBody_def members_columns)
  have 2: "map_option columns (map_of (tables (processCreateTable st m1 m2)) (cleanName m1)) =
        Some (List.map_filter columnMember (splitDefinition m2))"
    if "List.map_filter columnMember (splitDefinition m2) \<noteq> []"
    using that stored_table[of m1 m2 st] by (simp add: 1)
  from 1 2 show ?thesis by blast
qed

text \<open>The body \<^verbatim>\<open>A NUMBER, A DATE\<close> gives two columns named \<open>A\<close>.\<close>

theorem table_columns_are_members_witness: "List.map_filter columnMember (splitDefinition ''A NUMBER, A DATE'') \<noteq> [] \<and>
   map_option columns (map_of (tables (processCreateTable \<lparr>tables = [], relationships = []\<rparr> ''T'' ''A NUMBER, A DATE'')) (cleanName ''T'')) =
     Some [\<lparr>col_name = ''A'', col_type = ''NUMBER'', isPrimaryKey = False, isNotNull = False\<rparr>,
           \<lparr>col_name = ''A'', col_type = ''DATE'', isPrimaryKey = False, isNotNull = False\<rparr>]"
proof -
  have m: "List.map_filter columnMember (splitDefinition ''A NUMBER, A DATE'') =
     [\<lparr>col_name = ''A'', col_type = ''NUMBER'', isPrimaryKey = False, isNotNull = False\<rparr>,
      \<lparr>col_name = ''A'', col_type = ''DATE'', isPrimaryKey = False, isNotNull = False\<rparr>]"
    by (simp add: char_eval rx_eval name_eval parse_eval member_kind_eval map_filter_simps)
  from table_columns_are_members
         [where ?m1.0 = "''T''" and ?m2.0 = "''A NUMBER, A DATE''"
            and st = "\<lparr>tables = [], relationships = []\<rparr>"] m
  show ?thesis by simp
qed


text \<open>
  Claim C7, as stated, fails: after the scan of
  \<^verbatim>\<open>CREATE TABLE T (A NUMBER, A DATE);\<close> the table \<open>T\<close> has two columns with the
  canonical name \<open>A\<close>.
\<close>

theorem duplicate_column_names: "map (map col_name \<circ> columns \<circ> snd) (tables (buildSchema ''CREATE TABLE T (A NUMBER, A DATE);'')) = [[''A'', ''A'']] \<and>
  \<not> list_all (distinct \<circ> map col_name \<circ> columns \<circ> snd) (tables (buildSchema ''CREATE TABLE T (A NUMBER, A DATE);''))"
  by (simp add: char_eval rx_eval name_eval parse_eval)





section \<open>The foreign key example\<close>

text \<open>A clock, and the dumps of the example: the two tables with the foreign key as a
  member of \<open>ORD\<close>, and the two tables with the foreign key in a statement of its
  own.\<close>

definition sampleClock :: "nat \<Rightarrow> string" where
  "sampleClock n = ''1/1/2025, 0:00:00''"










section \<open>Relationships in the diagrams and in the relationship tables\<close>

text \<open>
  The diagram block of a list of tables and a list of relationships, as the specification
  describes it: the declaration line, one block per table, and one line per relationship
  whose two endpoints are both among the names of these tables, in the order of the
  relationship list.
\<close>

definition endpointsIn :: "string list \<Rightarrow> relationship \<Rightarrow> bool" where
  "endpointsIn names rel = (rel_from rel \<in> set names \<and> rel_to rel \<in> set names)"

definition diagramOf :: "table_map \<Rightarrow> relationship list \<Rightarrow> string" where
  "diagramOf tbls rels =
     ''erDiagram'' @ nl @ concat (map (addTableBlock []) tbls) @
     concat (map relLine (filter (endpointsIn (map fst tbls)) rels))"

text \<open>Every loop of the renderer appends to the text it is given.\<close>

lemma foldl_acc:
  assumes "\<And>acc x. f acc x = acc @ g x"
  shows "foldl f acc xs = acc @ concat (map g xs)"
proof (induction xs arbitrary: acc)
  case Nil
  show ?case by simp
next
  case (Cons x xs)
  show ?case by (simp add: Cons assms[of acc x])
qed

lemma addColumnDef_acc: "addColumnDef acc c = acc @ addColumnDef [] c"
  by (simp add: addColumnDef_def Let_def)

lemma foldl_addColumnDef: "foldl addColumnDef acc cs = acc @ concat (map (addColumnDef []) cs)"
  by (rule foldl_acc) (rule addColumnDef_acc)

lemma addTableBlock_acc: "addTableBlock acc e = acc @ addTableBlock [] e"
  by (cases e) (simp add: addTableBlock_def Let_def foldl_addColumnDef)

lemma foldl_addTableBlock: "foldl addTableBlock acc ts = acc @ concat (map (addTableBlock []) ts)"
  by (rule foldl_acc) (rule addTableBlock_acc)

lemma addColumnRow_acc: "addColumnRow acc c = acc @ addColumnRow [] c"
  by (simp add: addColumnRow_def Let_def)

lemma foldl_addColumnRow: "foldl addColumnRow acc cs = acc @ concat (map (addColumnRow []) cs)"
  by (rule foldl_acc) (rule addColumnRow_acc)

lemma addTableListing_acc: "addTableListing acc e = acc @ addTableListing [] e"
  by (cases e) (simp add: addTableListing_def Let_def foldl_addColumnRow)

lemma foldl_addTableListing:
  "foldl addTableListing acc ts = acc @ concat (map (addTableListing []) ts)"
  by (rule foldl_acc) (rule addTableListing_acc)

lemma foldl_addRelRow: "foldl addRelRow acc rels = acc @ concat (map relRow rels)"
  by (rule foldl_acc) (simp add: addRelRow_def)

lemma foldl_addRelLine:
  "foldl (addRelLine tbls) acc rels =
     acc @ concat (map relLine (filter (endpointsIn (map fst tbls)) rels))"
  by (induction rels arbitrary: acc) (simp_all add: addRelLine_def mapHas_def endpointsIn_def)



lemma documentListing_acc: "documentListing acc sch = acc @ documentListing [] sch"
  by (simp add: documentListing_def Let_def foldl_addTableListing foldl_addRelRow)



lemma single_diagram:
  "length (tables sch) \<le> 100 \<Longrightarrow>
   generateMermaidDiagram clock sch base = (diagramOf (tables sch) (relationships sch), [])"
  by (simp add: generateMermaidDiagram_def Let_def diagramOf_def foldl_addTableBlock foldl_addRelLine)

lemma single_document:
  "length (tables sch) \<le> 100 \<Longrightarrow>
   generateMarkdownContent clock inputFile sch base =
     ((documentHeader clock inputFile sch @ ''## Diagrama'' @ nl @ nl) @
      fence @ ''mermaid'' @ nl @ diagramOf (tables sch) (relationships sch) @ fence @ nl @ nl @
      documentListing [] sch, [])"
  by (simp add: generateMarkdownContent_def Let_def single_diagram documentListing_acc[of "_ @ _"])


lemma partitionStep_written:
  "snd (partitionStep clock tablesArray rels base tp (idx, written) i) =
     written @ [(partitionFileNameOf base i, fst (partitionDocument clock tablesArray rels base tp i))]"
proof -
  obtain doc shown where d: "partitionDocument clock tablesArray rels base tp i = (doc, shown)"
    by (cases "partitionDocument clock tablesArray rels base tp i")
  show ?thesis
    by (simp add: partitionStep_def Let_def d)
qed

lemma partition_loop_written:
  "snd (foldl (partitionStep clock tablesArray rels base tp) st is) =
     snd st @ map (\<lambda>i. (partitionFileNameOf base i,
                         fst (partitionDocument clock tablesArray rels base tp i))) is"
proof (induction "is" arbitrary: st)
  case Nil
  show ?case by simp
next
  case (Cons i "is")
  obtain idx written where st: "st = (idx, written)" by (cases st)
  have "snd (foldl (partitionStep clock tablesArray rels base tp) st (i # is)) =
        snd (foldl (partitionStep clock tablesArray rels base tp)
               (partitionStep clock tablesArray rels base tp (idx, written) i) is)"
    by (simp add: st)
  also have "\<dots> = snd (partitionStep clock tablesArray rels base tp (idx, written) i) @
      map (\<lambda>i. (partitionFileNameOf base i,
                  fst (partitionDocument clock tablesArray rels base tp i))) is"
    by (rule Cons)
  also have "\<dots> = snd st @ map (\<lambda>i. (partitionFileNameOf base i,
                  fst (partitionDocument clock tablesArray rels base tp i))) (i # is)"
    by (simp add: partitionStep_written st)
  finally show ?case .
qed

lemma partitioned_output:
  "snd (generatePartitionedDiagrams clock rels tablesArray base) =
      map (\<lambda>i. (partitionFileNameOf base i,
                 fst (partitionDocument clock tablesArray rels base ((length tablesArray + 49) div 50) i)))
        [0..<(length tablesArray + 49) div 50]"
proof -
  let ?tp = "(length tablesArray + 49) div 50"
  obtain idx written where
    f: "foldl (partitionStep clock tablesArray rels base ?tp)
          (indexHeader clock rels tablesArray ?tp, []) [0..<?tp] = (idx, written)"
    by (cases "foldl (partitionStep clock tablesArray rels base ?tp)
          (indexHeader clock rels tablesArray ?tp, []) [0..<?tp]")
  from partition_loop_written[of clock tablesArray rels base ?tp "(indexHeader clock rels tablesArray ?tp, [])" "[0..<?tp]"] f
  have w: "written = map (\<lambda>i. (partitionFileNameOf base i,
                 fst (partitionDocument clock tablesArray rels base ?tp i))) [0..<?tp]"
    by simp
  show ?thesis
    by (simp add: generatePartitionedDiagrams_def Let_def partitionSize_def f w)
qed



text \<open>A schema with two tables, a relationship between them and a relationship to a
  table that is not there; and schemas with any number of tables.\<close>

definition sampleTable :: table where
  "sampleTable =
     \<lparr>columns = [\<lparr>col_name = ''ID'', col_type = ''NUMBER'', isPrimaryKey = True,
                   isNotNull = False\<rparr>],
      constraints = []\<rparr>"

definition seriesSchema :: "nat \<Rightarrow> relationship list \<Rightarrow> schema" where
  "seriesSchema n rels =
     \<lparr>tables = map (\<lambda>i. (''T'' @ showNat i, sampleTable)) [0..<n], relationships = rels\<rparr>"


lemma seriesSchema_length: "length (tables (seriesSchema n rels)) = n"
  by (simp add: seriesSchema_def)


section \<open>The choice of the rendering strategy\<close>

lemma partitionTablesOf_chunk:
  "partitionTablesOf tablesArray i = take 50 (drop (50 * i) tablesArray)"
  by (simp add: partitionTablesOf_def slice_def partitionSize_def Let_def min_def mult.commute)

lemma chunks_prefix:
  "concat (map (partitionTablesOf tablesArray) [0..<k]) = take (50 * k) tablesArray"
proof (induction k)
  case 0
  show ?case by simp
next
  case (Suc k)
  have "take (50 * k) tablesArray @ take 50 (drop (50 * k) tablesArray) =
        take (50 * k + 50) tablesArray"
    by (simp add: take_add)
  with Suc show ?case by (simp add: partitionTablesOf_chunk add.commute)
qed

lemma chunks_cover:
  "concat (map (partitionTablesOf tablesArray) [0..<(length tablesArray + 49) div 50]) = tablesArray"
proof -
  have "length tablesArray \<le> 50 * ((length tablesArray + 49) div 50)" by arith
  then show ?thesis by (simp add: chunks_prefix)
qed

lemma showNat_small: "n < 10 \<Longrightarrow> showNat n = [digitChar n]"
  by (subst showNat.simps) simp

lemma digitChar_values:
  "digitChar (Suc 0) = CHR ''1''" "digitChar 2 = CHR ''2''" "digitChar 3 = CHR ''3''"
  by (simp_all add: digitChar_def char_of_eq_iff take_bit_eq_mod)

lemma showNat_digits:
  "showNat (Suc 0) = ''1''" "showNat (Suc (Suc 0)) = ''2''" "showNat 3 = ''3''"
  using showNat_small[of 2]
  by (simp_all add: showNat_small digitChar_values numeral_2_eq_2[symmetric])

lemma partition_names:
  "partitionFileNameOf base 0 = base @ ''_parte_1.md''"
  "partitionFileNameOf base (Suc 0) = base @ ''_parte_2.md''"
  "partitionFileNameOf base 2 = base @ ''_parte_3.md''"
  by (simp_all add: partitionFileNameOf_def showNat_digits)

lemma large_output:
  assumes "length (tables sch) > 100"
  shows "writeOutput clock inputFile outputFile base sch =
     map (\<lambda>i. (partitionFileNameOf base i,
                fst (partitionDocument clock (tables sch) (relationships sch) base
                       ((length (tables sch) + 49) div 50) i)))
       [0..<(length (tables sch) + 49) div 50] @
     [(base @ ''_index.md'', fst (generatePartitionedDiagrams clock (relationships sch) (tables sch) base))]"
proof -
  have g: "generateMarkdownContent clock inputFile sch base =
           generatePartitionedDiagrams clock (relationships sch) (tables sch) base"
    using assms by (simp add: generateMarkdownContent_def generateMermaidDiagram_def Let_def)
  obtain idx written where
    p: "generatePartitionedDiagrams clock (relationships sch) (tables sch) base = (idx, written)"
    by (cases "generatePartitionedDiagrams clock (relationships sch) (tables sch) base")
  with partitioned_output[of clock "relationships sch" "tables sch" base]
  have w: "written = map (\<lambda>i. (partitionFileNameOf base i,
                fst (partitionDocument clock (tables sch) (relationships sch) base
                       ((length (tables sch) + 49) div 50) i)))
       [0..<(length (tables sch) + 49) div 50]"
    by simp
  from assms have "tables sch \<noteq> []" by auto
  with assms show ?thesis
    by (simp add: writeOutput_def g p w Let_def)
qed

lemma small_output:
  assumes "0 < length (tables sch)" "length (tables sch) \<le> 100"
  shows "writeOutput clock inputFile outputFile base sch =
           [(outputFile, fst (generateMarkdownContent clock inputFile sch base))]"
  using assms by (simp add: writeOutput_def single_document)

text \<open>
  Claim C4.  The renderer partitions exactly when there are more than 100 tables, in
  chunks of 50 tables in the order of the table map.
  \<^item> With 150 tables the run writes three partition documents and then the index; the
    partitions hold the tables 1 to 50, 51 to 100 and 101 to 150.
  \<^item> With 100 tables the run writes the output file only, and its content is the single
    document, with the diagram of all the tables.
  \<^item> With more than 100 tables the files written are the partition files, one for each
    chunk, and the index; with 1 to 100 tables only the output file is written.
  \<^item> Partition \<open>i\<close> holds the tables from position \<open>50 * i\<close> on, at most 50 of them,
    and the partitions together are the table list.
\<close>

theorem partitioning_strategy:
  "(length (tables sch) = 150 \<longrightarrow>
      writeOutput clock inputFile outputFile base sch =
        [(base @ ''_parte_1.md'',
          fst (partitionDocument clock (tables sch) (relationships sch) base 3 0)),
         (base @ ''_parte_2.md'',
          fst (partitionDocument clock (tables sch) (relationships sch) base 3 1)),
         (base @ ''_parte_3.md'',
          fst (partitionDocument clock (tables sch) (relationships sch) base 3 2)),
         (base @ ''_index.md'',
          fst (generatePartitionedDiagrams clock (relationships sch) (tables sch) base))] \<and>
      map (partitionTablesOf (tables sch)) [0, 1, 2] =
        [take 50 (tables sch), take 50 (drop 50 (tables sch)), drop 100 (tables sch)] \<and>
      map (length \<circ> partitionTablesOf (tables sch)) [0, 1, 2] = [50, 50, 50]) \<and>
   (length (tables sch) = 100 \<longrightarrow>
      writeOutput clock inputFile outputFile base sch =
        [(outputFile, fst (generateMarkdownContent clock inputFile sch base))] \<and>
      (\<exists>pre post. fst (generateMarkdownContent clock inputFile sch base) =
         pre @ fence @ ''mermaid'' @ nl @ diagramOf (tables sch) (relationships sch) @
         fence @ nl @ nl @ post)) \<and>
   (100 < length (tables sch) \<longrightarrow>
      map fst (writeOutput clock inputFile outputFile base sch) =
        map (partitionFileNameOf base) [0..<(length (tables sch) + 49) div 50] @
        [base @ ''_index.md'']) \<and>
   (0 < length (tables sch) \<and> length (tables sch) \<le> 100 \<longrightarrow>
      map fst (writeOutput clock inputFile outputFile base sch) = [outputFile]) \<and>
   partitionTablesOf tablesArray i = take 50 (drop (50 * i) tablesArray) \<and>
   concat (map (partitionTablesOf tablesArray) [0..<(length tablesArray + 49) div 50]) =
     tablesArray"
proof -
  have a: "writeOutput clock inputFile outputFile base sch =
        [(base @ ''_parte_1.md'',
          fst (partitionDocument clock (tables sch) (relationships sch) base 3 0)),
         (base @ ''_parte_2.md'',
          fst (partitionDocument clock (tables sch) (relationships sch) base 3 1)),
         (base @ ''_parte_3.md'',
          fst (partitionDocument clock (tables sch) (relationships sch) base 3 2)),
         (base @ ''_index.md'',
          fst (generatePartitionedDiagrams clock (relationships sch) (tables sch) base))] \<and>
      map (partitionTablesOf (tables sch)) [0, 1, 2] =
        [take 50 (tables sch), take 50 (drop 50 (tables sch)), drop 100 (tables sch)] \<and>
      map (length \<circ> partitionTablesOf (tables sch)) [0, 1, 2] = [50, 50, 50]"
    if n: "length (tables sch) = 150"
  proof -
    have u: "[0..<3] = [0, 1, 2::nat]" by (simp add: upt_rec)
    have "100 < length (tables sch)" using n by simp
    from large_output[OF this, of clock inputFile outputFile base]
    have 1: "writeOutput clock inputFile outputFile base sch =
        [(base @ ''_parte_1.md'',
          fst (partitionDocument clock (tables sch) (relationships sch) base 3 0)),
         (base @ ''_parte_2.md'',
          fst (partitionDocument clock (tables sch) (relationships sch) base 3 1)),
         (base @ ''_parte_3.md'',
          fst (partitionDocument clock (tables sch) (relationships sch) base 3 2)),
         (base @ ''_index.md'',
          fst (generatePartitionedDiagrams clock (relationships sch) (tables sch) base))]"
      by (simp add: n u partition_names)
    have 2: "map (partitionTablesOf (tables sch)) [0, 1, 2] =
        [take 50 (tables sch), take 50 (drop 50 (tables sch)), drop 100 (tables sch)]"
      using n by (simp add: partitionTablesOf_chunk)
    have 3: "map (length \<circ> partitionTablesOf (tables sch)) [0, 1, 2] = [50, 50, 50]"
      using n by (simp add: partitionTablesOf_chunk)
    from 1 2 3 show ?thesis by blast
  qed
  have b: "writeOutput clock inputFile outputFile base sch =
        [(outputFile, fst (generateMarkdownContent clock inputFile sch base))] \<and>
      (\<exists>pre post. fst (generateMarkdownContent clock inputFile sch base) =
         pre @ fence @ ''mermaid'' @ nl @ diagramOf (tables sch) (relationships sch) @
         fence @ nl @ nl @ post)"
    if n: "length (tables sch) = 100"
  proof -
    have le: "length (tables sch) \<le> 100" and pos: "0 < length (tables sch)" using n by simp_all
    have "fst (generateMarkdownContent clock inputFile sch base) =
      (documentHeader clock inputFile sch @ ''## Diagrama'' @ nl @ nl) @
      fence @ ''mermaid'' @ nl @ diagramOf (tables sch) (relationships sch) @ fence @ nl @ nl @
      documentListing [] sch"
      by (simp add: single_document[OF le])
    then have "\<exists>pre post. fst (generateMarkdownContent clock inputFile sch base) =
         pre @ fence @ ''mermaid'' @ nl @ diagramOf (tables sch) (relationships sch) @
         fence @ nl @ nl @ post"
      by blast
    with small_output[OF pos le, of clock inputFile outputFile base] show ?thesis by blast
  qed
  have c: "map fst (writeOutput clock inputFile outputFile base sch) =
        map (partitionFileNameOf base) [0..<(length (tables sch) + 49) div 50] @
        [base @ ''_index.md'']"
    if "100 < length (tables sch)"
    by (simp add: large_output[OF that] comp_def)
  have d: "map fst (writeOutput clock inputFile outputFile base sch) = [outputFile]"
    if "0 < length (tables sch) \<and> length (tables sch) \<le> 100"
    using that by (simp add: small_output)
  from a b c d partitionTablesOf_chunk[of tablesArray i] chunks_cover[of tablesArray]
  show ?thesis by blast
qed

theorem partitioning_strategy_witness:
  "length (tables (seriesSchema 150 [])) = 150 \<and>
   writeOutput sampleClock ''dump.sql'' ''der.md'' ''der'' (seriesSchema 150 []) =
     [(''der_parte_1.md'',
       fst (partitionDocument sampleClock (tables (seriesSchema 150 [])) [] ''der'' 3 0)),
      (''der_parte_2.md'',
       fst (partitionDocument sampleClock (tables (seriesSchema 150 [])) [] ''der'' 3 1)),
      (''der_parte_3.md'',
       fst (partitionDocument sampleClock (tables (seriesSchema 150 [])) [] ''der'' 3 2)),
      (''der_index.md'',
       fst (generatePartitionedDiagrams sampleClock [] (tables (seriesSchema 150 [])) ''der''))] \<and>
   map (length \<circ> partitionTablesOf (tables (seriesSchema 150 []))) [0, 1, 2] = [50, 50, 50] \<and>
   100 < length (tables (seriesSchema 150 [])) \<and>
   map fst (writeOutput sampleClock ''dump.sql'' ''der.md'' ''der'' (seriesSchema 150 [])) =
     map (partitionFileNameOf ''der'') [0..<(length (tables (seriesSchema 150 [])) + 49) div 50] @
     [''der_index.md''] \<and>
   length (tables (seriesSchema 100 [])) = 100 \<and>
   writeOutput sampleClock ''dump.sql'' ''der.md'' ''der'' (seriesSchema 100 []) =
     [(''der.md'', fst (generateMarkdownContent sampleClock ''dump.sql'' (seriesSchema 100 []) ''der''))] \<and>
   0 < length (tables (seriesSchema 100 [])) \<and>
   length (tables (seriesSchema 100 [])) \<le> 100 \<and>
   map fst (writeOutput sampleClock ''dump.sql'' ''der.md'' ''der'' (seriesSchema 100 [])) = [''der.md'']"
proof -
  have a: "length (tables (seriesSchema 150 [])) = 150"
    and b: "length (tables (seriesSchema 100 [])) = 100"
    by (simp_all add: seriesSchema_length)
  have a': "100 < length (tables (seriesSchema 150 []))"
    and b': "0 < length (tables (seriesSchema 100 []))" "length (tables (seriesSchema 100 [])) \<le> 100"
    by (simp_all add: seriesSchema_length)
  have r: "relationships (seriesSchema 150 []) = []"
    by (simp add: seriesSchema_def)
  note at150 = partitioning_strategy
    [of "seriesSchema 150 []" sampleClock "''dump.sql''" "''der.md''" "''der''"]
  note at100 = partitioning_strategy
    [of "seriesSchema 100 []" sampleClock "''dump.sql''" "''der.md''" "''der''"]
  from at150 a
  have 1: "writeOutput sampleClock ''dump.sql'' ''der.md'' ''der'' (seriesSchema 150 []) =
     [(''der_parte_1.md'',
       fst (partitionDocument sampleClock (tables (seriesSchema 150 [])) [] ''der'' 3 0)),
      (''der_parte_2.md'',
       fst (partitionDocument sampleClock (tables (seriesSchema 150 [])) [] ''der'' 3 1)),
      (''der_parte_3.md'',
       fst (partitionDocument sampleClock (tables (seriesSchema 150 [])) [] ''der'' 3 2)),
      (''der_index.md'',
       fst (generatePartitionedDiagrams sampleClock [] (tables (seriesSchema 150 [])) ''der''))] \<and>
   map (length \<circ> partitionTablesOf (tables (seriesSchema 150 []))) [0, 1, 2] = [50, 50, 50]"
    by (simp add: r)
  from at150 a'
  have 2: "map fst (writeOutput sampleClock ''dump.sql'' ''der.md'' ''der'' (seriesSchema 150 [])) =
     map (partitionFileNameOf ''der'') [0..<(length (tables (seriesSchema 150 [])) + 49) div 50] @
     [''der_index.md'']"
    by simp
  from at100 b
  have 3: "writeOutput sampleClock ''dump.sql'' ''der.md'' ''der'' (seriesSchema 100 []) =
     [(''der.md'', fst (generateMarkdownContent sampleClock ''dump.sql'' (seriesSchema 100 []) ''der''))]"
    by simp
  from at100 b'
  have 4: "map fst (writeOutput sampleClock ''dump.sql'' ''der.md'' ''der'' (seriesSchema 100 [])) = [''der.md'']"
    by simp
  from a b a' b' 1 2 3 4 show ?thesis by blast
qed

section \<open>The body of a table definition in a whole run\<close>

text \<open>
  The end of \<open>createTableRegex\<close>, \<^verbatim>\<open>(?:\s*[^;]*)?;\<close>, matches exactly when a
  semicolon follows, and captures nothing.  The lemmas are stated for any classes \<open>w\<close>,
  \<open>p\<close> and \<open>q\<close> such that \<open>p\<close> is the complement of \<open>q\<close> and \<open>w\<close> excludes \<open>q\<close>.
\<close>

lemma run_rep_lit:
  assumes pq: "\<And>c. p c = (\<not> q c)"
  shows "run [Node (Rep True 0 p), Node (Lit q)] s caps =
     (if list_ex q s then Some (caps, tl (dropWhile p s)) else None)"
proof (induction s)
  case Nil
  show ?case by simp
next
  case (Cons c cs)
  show ?case
  proof (cases "q c")
    case True
    then have "\<not> p c" using pq[of c] by simp
    with True show ?thesis by simp
  next
    case False
    then have "p c" using pq[of c] by simp
    with False show ?thesis by (simp add: Cons)
  qed
qed

lemma run_rep_rep_lit:
  assumes pq: "\<And>c. p c = (\<not> q c)" and wq: "\<And>c. w c \<Longrightarrow> \<not> q c"
  shows "run [Node (Rep True 0 w), Node (Rep True 0 p), Node (Lit q)] s caps =
     (if list_ex q s then Some (caps, tl (dropWhile p s)) else None)"
proof (induction s)
  case Nil
  show ?case by simp
next
  case (Cons c cs)
  let ?W = "[Node (Rep True 0 w), Node (Rep True 0 p), Node (Lit q)]"
  let ?P = "[Node (Rep True 0 p), Node (Lit q)]"
  have P: "run ?P (c # cs) caps =
     (if list_ex q (c # cs) then Some (caps, tl (dropWhile p (c # cs))) else None)"
    using pq by (rule run_rep_lit[where p = p and q = q])
  show ?case
  proof (cases "w c")
    case True
    then have nq: "\<not> q c" by (rule wq)
    then have pc: "p c" using pq[of c] by simp
    from True have step: "run ?W (c # cs) caps =
       (case run ?W cs caps of Some r \<Rightarrow> Some r | None \<Rightarrow> run ?P (c # cs) caps)"
      by simp
    show ?thesis
      unfolding step Cons P using nq pc by simp
  next
    case False
    then have "run ?W (c # cs) caps = run ?P (c # cs) caps"
      by simp
    with P show ?thesis by simp
  qed
qed

lemma run_tail:
  assumes pq: "\<And>c. p c = (\<not> q c)" and wq: "\<And>c. w c \<Longrightarrow> \<not> q c"
  shows "run [Node (Opt [Rep True 0 w, Rep True 0 p]), Node (Lit q)] s caps =
     (if list_ex q s then Some (caps, tl (dropWhile p s)) else None)"
proof -
  have o: "run [Node (Opt [Rep True 0 w, Rep True 0 p]), Node (Lit q)] s caps =
     (case run [Node (Rep True 0 w), Node (Rep True 0 p), Node (Lit q)] s caps of
        Some r \<Rightarrow> Some r | None \<Rightarrow> run [Node (Lit q)] s caps)"
    by simp
  have l: "run [Node (Lit q)] s caps = None" if "\<not> list_ex q s"
    using that by (cases s) auto
  have w: "run [Node (Rep True 0 w), Node (Rep True 0 p), Node (Lit q)] s caps =
     (if list_ex q s then Some (caps, tl (dropWhile p s)) else None)"
    using pq wq by (rule run_rep_rep_lit[where p = p and q = q and w = w])
  show ?thesis
    unfolding o w using l by simp
qed

text \<open>
  The lazy body \<^verbatim>\<open>([\s\S]*?)\)\<close> in front of such an end \<open>k\<close>: it has no match
  when no delimiter follows, and the text it captures has no character of the class
  \<open>cl\<close> of the closing literal.
\<close>

lemma run_body_none:
  assumes kNone: "\<And>s caps. \<not> list_ex q s \<Longrightarrow> run k s caps = None"
    and nq: "\<not> list_ex q s"
  shows "run (Node (Rep False 0 a) # Close i s0 # Node (Lit cl) # k) s caps = None"
  using nq
proof (induction s)
  case Nil
  show ?case by simp
next
  case (Cons c cs)
  then have "\<not> list_ex q cs" by simp
  with Cons kNone[of cs] show ?case by simp
qed

lemma run_body:
  assumes kIff: "\<And>s caps. (run k s caps = None) = (\<not> list_ex q s)"
    and kSome: "\<And>s caps caps' rest. run k s caps = Some (caps', rest) \<Longrightarrow> caps' = caps"
    and r: "run (Node (Rep False 0 a) # Close i (pre @ s) # Node (Lit cl) # k) s caps =
              Some (caps', rest)"
    and pre: "\<not> list_ex cl pre"
  shows "\<exists>cap. map_of caps' i = Some cap \<and> \<not> list_ex cl cap"
  using r pre
proof (induction s arbitrary: pre)
  case Nil
  then show ?case by simp
next
  case (Cons c cs)
  show ?case
  proof (cases "cl c")
    case True
    show ?thesis
    proof (cases "run k cs ((i, pre) # caps)")
      case (Some x)
      with True Cons.prems(1) have x: "run k cs ((i, pre) # caps) = Some (caps', rest)"
        by simp
      then have "caps' = (i, pre) # caps" by (rule kSome)
      with Cons.prems(2) show ?thesis by simp
    next
      case None
      then have "\<not> list_ex q cs" by (simp add: kIff)
      then have n: "run (Node (Rep False 0 a) # Close i (pre @ c # cs) # Node (Lit cl) # k) cs caps = None"
        by (rule run_body_none[rotated]) (simp add: kIff)
      from n True None Cons.prems(1) show ?thesis
        by (simp split: if_splits)
    qed
  next
    case False
    with Cons.prems(1) have
      "run (Node (Rep False 0 a) # Close i ((pre @ [c]) @ cs) # Node (Lit cl) # k) cs caps =
         Some (caps', rest)"
      by (simp split: if_splits)
    moreover from False Cons.prems(2) have "\<not> list_ex cl (pre @ [c])" by simp
    ultimately show ?thesis by (rule Cons.IH)
  qed
qed

text \<open>A match of the frames \<open>k1 @ k2\<close> ends with a match of \<open>k2\<close> on a suffix of the
  input.\<close>

definition endsWith :: "frame list \<Rightarrow> (caps \<times> string) \<Rightarrow> string \<Rightarrow> bool" where
  "endsWith k2 r s = (\<exists>s' caps' pre. run k2 s' caps' = Some r \<and> s = pre @ s')"

lemma endsWith_here: "run k2 s caps = Some r \<Longrightarrow> endsWith k2 r s"
  unfolding endsWith_def by (metis append_Nil)

lemma endsWith_Cons: "endsWith k2 r cs \<Longrightarrow> endsWith k2 r (c # cs)"
  unfolding endsWith_def by (metis append_Cons)

lemma run_suffix:
  "run k s caps = Some r \<Longrightarrow> k = k1 @ k2 \<Longrightarrow> endsWith k2 r s"
proof (induction k s caps arbitrary: k1 rule: run.induct)
  case (1 s caps)
  then show ?case by (auto intro: endsWith_here)
next
  case (2 p k caps)
  show ?case
  proof (cases k1)
    case Nil
    with 2 show ?thesis by (auto intro: endsWith_here)
  next
    case (Cons f k1')
    from 2(1) show ?thesis by simp
  qed
next
  case (3 p k c cs caps)
  show ?case
  proof (cases k1)
    case Nil
    with 3(2,3) show ?thesis by (auto intro: endsWith_here)
  next
    case (Cons f k1')
    with 3(3) have k: "k = k1' @ k2" by simp
    from 3(2) have pc: "p c" and r: "run k cs caps = Some r" by (simp_all split: if_splits)
    from 3(1)[OF pc r k] show ?thesis by (rule endsWith_Cons)
  qed
next
  case (4 g n p k caps)
  show ?case
  proof (cases k1)
    case Nil
    with 4 show ?thesis by (auto intro: endsWith_here)
  next
    case (Cons f k1')
    from 4(1) show ?thesis by simp
  qed
next
  case (5 g n p k c cs caps)
  show ?case
  proof (cases k1)
    case Nil
    with 5(2,3) show ?thesis by (auto intro: endsWith_here)
  next
    case (Cons f k1')
    with 5(3) have k: "Node (Rep g n p) # k = (Node (Rep g n p) # k1') @ k2" by simp
    from 5(2) have pc: "p c" and r: "run (Node (Rep g n p) # k) cs caps = Some r"
      by (simp_all split: if_splits)
    from 5(1)[OF pc r k] show ?thesis by (rule endsWith_Cons)
  qed
next
  case (6 g p k caps)
  show ?case
  proof (cases k1)
    case Nil
    with 6(2,3) show ?thesis by (auto intro: endsWith_here)
  next
    case (Cons f k1')
    with 6(3) have k: "k = k1' @ k2" by simp
    from 6(2) have r: "run k [] caps = Some r" by simp
    from 6(1)[OF r k] show ?thesis .
  qed
next
  case (7 p k c cs caps)
  show ?case
  proof (cases k1)
    case Nil
    with 7(4,5) show ?thesis by (auto intro: endsWith_here)
  next
    case (Cons f k1')
    with 7(5) have k: "k = k1' @ k2"
      and k': "Node (Rep True 0 p) # k = (Node (Rep True 0 p) # k1') @ k2" by simp_all
    show ?thesis
    proof (cases "p c")
      case True
      show ?thesis
      proof (cases "run (Node (Rep True 0 p) # k) cs caps")
        case None
        with 7(4) True have "run k (c # cs) caps = Some r" by simp
        from 7(2)[OF True None this k] show ?thesis .
      next
        case (Some x)
        with 7(4) True have "run (Node (Rep True 0 p) # k) cs caps = Some r" by simp
        from 7(1)[OF True this k'] show ?thesis by (rule endsWith_Cons)
      qed
    next
      case False
      with 7(4) have "run k (c # cs) caps = Some r" by simp
      from 7(3)[OF False this k] show ?thesis .
    qed
  qed
next
  case (8 p k c cs caps)
  show ?case
  proof (cases k1)
    case Nil
    with 8(3,4) show ?thesis by (auto intro: endsWith_here)
  next
    case (Cons f k1')
    with 8(4) have k: "k = k1' @ k2"
      and k': "Node (Rep False 0 p) # k = (Node (Rep False 0 p) # k1') @ k2" by simp_all
    show ?thesis
    proof (cases "run k (c # cs) caps")
      case None
      with 8(3) have pc: "p c" and r: "run (Node (Rep False 0 p) # k) cs caps = Some r"
        by (simp_all split: if_splits)
      from 8(2)[OF None pc r k'] show ?thesis by (rule endsWith_Cons)
    next
      case (Some x)
      with 8(3) have "run k (c # cs) caps = Some r" by simp
      from 8(1)[OF this k] show ?thesis .
    qed
  qed
next
  case (9 i ns k s caps)
  show ?case
  proof (cases k1)
    case Nil
    with 9(2,3) show ?thesis by (auto intro: endsWith_here)
  next
    case (Cons f k1')
    with 9(3) have k: "map Node ns @ Close i s # k = (map Node ns @ Close i s # k1') @ k2" by simp
    from 9(2) have r: "run (map Node ns @ Close i s # k) s caps = Some r" by simp
    from 9(1)[OF r k] show ?thesis .
  qed
next
  case (10 i s0 k s caps)
  show ?case
  proof (cases k1)
    case Nil
    with 10(2,3) show ?thesis by (auto intro: endsWith_here)
  next
    case (Cons f k1')
    with 10(3) have k: "k = k1' @ k2" by simp
    from 10(2) have r: "run k s ((i, take (length s0 - length s) s0) # caps) = Some r" by simp
    from 10(1)[OF r k] show ?thesis .
  qed
next
  case (11 ns k s caps)
  show ?case
  proof (cases k1)
    case Nil
    with 11(3,4) show ?thesis by (auto intro: endsWith_here)
  next
    case (Cons f k1')
    with 11(4) have k: "k = k1' @ k2"
      and k': "map Node ns @ k = (map Node ns @ k1') @ k2" by simp_all
    show ?thesis
    proof (cases "run (map Node ns @ k) s caps")
      case None
      with 11(3) have "run k s caps = Some r" by simp
      from 11(2)[OF None this k] show ?thesis .
    next
      case (Some x)
      with 11(3) have "run (map Node ns @ k) s caps = Some r" by simp
      from 11(1)[OF this k'] show ?thesis .
    qed
  qed
qed

lemma search_matchStart:
  "search re s = Some r \<Longrightarrow> \<exists>s' pre. matchStart re s' = Some r \<and> s = pre @ s'"
proof (induction s)
  case Nil
  then show ?case by auto
next
  case (Cons c cs)
  show ?case
  proof (cases "matchStart re (c # cs)")
    case None
    with Cons.prems have "search re cs = Some r" by simp
    then obtain s' pre where "matchStart re s' = Some r" "cs = pre @ s'"
      using Cons.IH by blast
    then have "matchStart re s' = Some r \<and> c # cs = (c # pre) @ s'" by simp
    then show ?thesis by blast
  next
    case (Some x)
    with Cons.prems have "matchStart re (c # cs) = Some r \<and> c # cs = [] @ (c # cs)" by simp
    then show ?thesis by blast
  qed
qed

lemma search_needs_char:
  assumes "search re s = Some r" and "map Node re = k1 @ Node (Lit q) # k3"
  shows "list_ex q s"
proof -
  from assms(1) obtain s1 pre1 where m: "matchStart re s1 = Some r" and s: "s = pre1 @ s1"
    using search_matchStart by blast
  from m have "run (map Node re) s1 [] = Some r" by (simp add: matchStart_def)
  from run_suffix[OF this assms(2)]
  obtain s2 caps2 pre2 where r: "run (Node (Lit q) # k3) s2 caps2 = Some r" and s1: "s1 = pre2 @ s2"
    unfolding endsWith_def by blast
  from r obtain c cs where "s2 = c # cs" "q c"
    by (cases s2) (auto split: if_splits)
  with s s1 show ?thesis by simp
qed

lemma space_not_semicolon: "isSpace c \<Longrightarrow> \<not> c = CHR '';''"
  by (auto simp: isSpace_def code_def)

text \<open>The body of a match of \<open>createTableRegex\<close> has no closing parenthesis: it ends
  at the first one after the opening parenthesis of the statement.\<close>

lemma createTable_body_no_close:
  assumes "search createTableRegex sql = Some (m, rest)"
  shows "CHR '')'' \<notin> set (group m 2)"
proof -
  let ?T = "[Node (Opt [Rep True 0 isSpace, Rep True 0 notSemicolon]), Node (Lit (\<lambda>c. c = CHR '';''))]"
  let ?B = "Node (Grp 2 [Rep False 0 anyChar]) # Node (Lit (\<lambda>c. c = CHR '')'')) # ?T"
  have tail: "run ?T s caps =
      (if list_ex (\<lambda>c. c = CHR '';'') s then Some (caps, tl (dropWhile notSemicolon s)) else None)"
    for s caps
    by (rule run_tail[where p = notSemicolon and q = "\<lambda>c. c = CHR '';''" and w = isSpace])
       (simp_all add: notSemicolon_def space_not_semicolon)
  from assms obtain s where "matchStart createTableRegex s = Some (m, rest)"
    using search_matchStart by blast
  then have "run (map Node createTableRegex) s [] = Some (m, rest)"
    by (simp add: matchStart_def)
  moreover have "\<exists>k1. map Node createTableRegex = k1 @ ?B"
    by (simp add: createTableRegex_def chr_def)
  ultimately obtain s' caps' where "run ?B s' caps' = Some (m, rest)"
    using run_suffix unfolding endsWith_def by blast
  then have b: "run (Node (Rep False 0 anyChar) # Close 2 ([] @ s') #
                  Node (Lit (\<lambda>c. c = CHR '')'')) # ?T) s' caps' = Some (m, rest)"
    by simp
  have "\<exists>cap. map_of m 2 = Some cap \<and> \<not> list_ex (\<lambda>c. c = CHR '')'') cap"
  proof (rule run_body[where q = "\<lambda>c. c = CHR '';''" and k = ?T, OF _ _ b])
    show "(run ?T s caps = None) = (\<not> list_ex (\<lambda>c. c = CHR '';'') s)" for s caps
      unfolding tail by simp
    show "caps1 = caps" if "run ?T s caps = Some (caps1, rest1)" for s caps caps1 rest1
      using that unfolding tail by (simp split: if_splits)
    show "\<not> list_ex (\<lambda>c. c = CHR '')'') []" by simp
  qed
  then show ?thesis
    by (auto simp: group_def list_ex_iff)
qed

text \<open>A member without a closing parenthesis matches neither \<open>pkRegex\<close> nor
  \<open>fkRegex\<close>, and the members of a body are made of characters of the body.\<close>

lemma pk_needs_close:
  assumes "search pkRegex line = Some r"
  shows "CHR '')'' \<in> set line"
proof -
  have "last pkRegex = chr CHR '')''" and "pkRegex \<noteq> []"
    by (simp_all add: pkRegex_def)
  then have "butlast pkRegex @ [chr CHR '')''] = pkRegex"
    by (metis append_butlast_last_id)
  then have "map Node pkRegex = map Node (butlast pkRegex @ [chr CHR '')''])"
    by simp
  then have "map Node pkRegex = map Node (butlast pkRegex) @ Node (Lit (\<lambda>c. c = CHR '')'')) # []"
    by (simp add: chr_def)
  from search_needs_char[OF assms this] show ?thesis
    by (simp add: list_ex_iff)
qed

lemma fk_needs_close:
  assumes "search fkRegex line = Some r"
  shows "CHR '')'' \<in> set line"
proof -
  have "last fkRegex = chr CHR '')''" and "fkRegex \<noteq> []"
    by (simp_all add: fkRegex_def)
  then have "butlast fkRegex @ [chr CHR '')''] = fkRegex"
    by (metis append_butlast_last_id)
  then have "map Node fkRegex = map Node (butlast fkRegex @ [chr CHR '')''])"
    by simp
  then have "map Node fkRegex = map Node (butlast fkRegex) @ Node (Lit (\<lambda>c. c = CHR '')'')) # []"
    by (simp add: chr_def)
  from search_needs_char[OF assms this] show ?thesis
    by (simp add: list_ex_iff)
qed

lemma set_trim: "set (trim s) \<subseteq> set s"
proof -
  have "set (dropWhile isSpace (rev (dropWhile isSpace s))) \<subseteq> set (rev (dropWhile isSpace s))"
    by (auto dest: set_dropWhileD)
  also have "\<dots> \<subseteq> set s"
    by (auto dest: set_dropWhileD)
  finally show ?thesis by (simp add: trim_def trimStart_def)
qed

lemma processLine_no_close:
  assumes "CHR '')'' \<notin> set line"
  shows "snd (processLine tableName (cols, cons, rels) line) = (cons, rels)"
proof -
  from assms set_trim[of line] have n: "CHR '')'' \<notin> set (trim line)" by auto
  have pk: "search pkRegex (trim line) = None"
    using n pk_needs_close[of "trim line"] by (cases "search pkRegex (trim line)") auto
  have fk: "search fkRegex (trim line) = None"
    using n fk_needs_close[of "trim line"] by (cases "search fkRegex (trim line)") auto
  show ?thesis
    by (simp add: processLine_def processConstraint_def Let_def pk fk split: option.splits)
qed

lemma members_no_close:
  assumes "\<And>l. l \<in> set lines \<Longrightarrow> CHR '')'' \<notin> set l"
  shows "snd (foldl (processLine tableName) (cols, cons, rels) lines) = (cons, rels)"
  using assms
proof (induction lines arbitrary: cols)
  case Nil
  show ?case by simp
next
  case (Cons l ls)
  have "CHR '')'' \<notin> set l" using Cons.prems by simp
  then have "snd (processLine tableName (cols, cons, rels) l) = (cons, rels)"
    by (rule processLine_no_close)
  then obtain cols' where "processLine tableName (cols, cons, rels) l = (cols', cons, rels)"
    by (cases "processLine tableName (cols, cons, rels) l") auto
  with Cons show ?case by simp
qed

lemma slice_subset: "set (slice a b s) \<subseteq> set s"
  unfolding slice_def by (meson set_take_subset set_drop_subset subset_trans)

lemma splitDefinition_subset:
  assumes "l \<in> set (splitDefinition body)"
  shows "set l \<subseteq> set body"
proof -
  have before: "set m \<subseteq> set body" if "m \<in> set (membersBefore body)" for m
    using that slice_subset[of _ _ body] by (auto simp: membersBefore_def)
  have lastm: "set (lastMember body) \<subseteq> set body"
    by (simp add: lastMember_def set_drop_subset)
  from assms have "l \<in> trim ` set (membersBefore body) \<or> l = trim (lastMember body)"
    by (auto simp: splitDefinition_def split_loop split: if_splits)
  then show ?thesis
    using before lastm set_trim by blast
qed

lemma parseBody_no_close:
  assumes "CHR '')'' \<notin> set body"
  shows "snd (parseBody tableName body rels) = ([], rels)"
  unfolding parseBody_def
proof (rule members_no_close)
  fix l assume "l \<in> set (splitDefinition body)"
  then have "set l \<subseteq> set body" by (rule splitDefinition_subset)
  with assms show "CHR '')'' \<notin> set l" by auto
qed

text \<open>So in a whole run the scan of the table definitions adds no relationship and
  stores every table with an empty constraint list: the relationships of the schema are
  those of the \<^verbatim>\<open>ALTER TABLE\<close> pass.\<close>

definition noConstraints :: "string \<times> table \<Rightarrow> bool" where
  "noConstraints entry = (constraints (snd entry) = [])"

lemma processCreateTable_no_close:
  assumes "CHR '')'' \<notin> set m2" and "list_all noConstraints (tables st)"
  shows "relationships (processCreateTable st m1 m2) = relationships st \<and>
         list_all noConstraints (tables (processCreateTable st m1 m2))"
proof -
  from parseBody_no_close[OF assms(1), of "cleanName m1" "relationships st"]
  obtain cols where p: "parseBody (cleanName m1) m2 (relationships st) = (cols, [], relationships st)"
    by (cases "parseBody (cleanName m1) m2 (relationships st)") auto
  have "noConstraints (cleanName m1, \<lparr>columns = cols, constraints = []\<rparr>)"
    by (simp add: noConstraints_def)
  with assms(2) have "list_all noConstraints
      (mapSet (cleanName m1) \<lparr>columns = cols, constraints = []\<rparr> (tables st))"
    by (simp add: mapSet_list_all)
  with assms(2) show ?thesis
    by (simp add: processCreateTable_def p)
qed

lemma scanCreateTables_inline:
  "list_all noConstraints (tables st) \<Longrightarrow>
   relationships (scanCreateTables sql st) = relationships st \<and>
   list_all noConstraints (tables (scanCreateTables sql st))"
proof (induction sql st rule: scanCreateTables.induct)
  case (1 sql st)
  show ?case
  proof (cases "search createTableRegex sql")
    case None
    with 1(2) show ?thesis by (simp add: scanCreateTables.simps)
  next
    case (Some r)
    obtain m rest where r: "r = (m, rest)" by (cases r)
    from Some r have "CHR '')'' \<notin> set (group m 2)"
      by (simp add: createTable_body_no_close)
    from processCreateTable_no_close[OF this 1(2), of "group m 1"]
    have s: "relationships (processCreateTable st (group m 1) (group m 2)) = relationships st"
      and t: "list_all noConstraints (tables (processCreateTable st (group m 1) (group m 2)))"
      by simp_all
    from 1(1)[OF Some[unfolded r] refl t] s Some r show ?thesis
      by (simp add: scanCreateTables.simps)
  qed
qed

lemma whole_run_inline:
  "relationships (buildSchema sql) = scanAlterConstraints sql [] \<and>
   list_all noConstraints (tables (buildSchema sql))"
  using scanCreateTables_inline[of "\<lparr>tables = [], relationships = []\<rparr>" sql]
  by (simp add: buildSchema_def Let_def)

end
